theory Spec2Isabelle
  imports Complex_Main "HOL-Library.Sublist"
begin

section \<open>Strings and numbers of the host language\<close>

text \<open>
  A string of the program is a list of code units; the model reads a \<^typ>\<open>char\<close> as the code
  unit of the same value, so it covers the strings whose code units are below 256. On these,
  \<open>toLowerCase\<close> and the case folding of the \<open>i\<close> flag change the ASCII letters (the model
  leaves the letters of the upper half as they are), the white space of \<open>trim\<close> and of
  \<open>\s\<close> is TAB, LF, VT, FF, CR, SPACE and NBSP, and the line terminators that \<open>.\<close>
  refuses are LF and CR. Numbers are exact: a confidence is a rational, a count or a
  parsed integer is an integer; rounding of doubles is outside the model.
\<close>

definition backslash :: char where
  "backslash = CHR 0x5C"

definition isLineTerminator :: "char \<Rightarrow> bool" where
  "isLineTerminator c = (c = CHR 0x0A \<or> c = CHR 0x0D)"

definition isWhiteSpace :: "char \<Rightarrow> bool" where
  "isWhiteSpace c =
     (c \<in> set [CHR 0x09, CHR 0x0A, CHR 0x0B, CHR 0x0C, CHR 0x0D, CHR 0x20, CHR 0xA0])"

definition isDigit :: "char \<Rightarrow> bool" where
  "isDigit c = (c \<in> set ''0123456789'')"

definition isWordChar :: "char \<Rightarrow> bool" where
  "isWordChar c =
     (c \<in> set ''ABCDEFGHIJKLMNOPQRSTUVWXYZabcdefghijklmnopqrstuvwxyz0123456789_'')"

definition lowerChar :: "char \<Rightarrow> char" where
  "lowerChar c =
     (case map_of (zip ''ABCDEFGHIJKLMNOPQRSTUVWXYZ'' ''abcdefghijklmnopqrstuvwxyz'') c of
        Some d \<Rightarrow> d
      | None \<Rightarrow> c)"

definition upperChar :: "char \<Rightarrow> char" where
  "upperChar c =
     (case map_of (zip ''abcdefghijklmnopqrstuvwxyz'' ''ABCDEFGHIJKLMNOPQRSTUVWXYZ'') c of
        Some d \<Rightarrow> d
      | None \<Rightarrow> c)"

definition toLowerCase :: "string \<Rightarrow> string" where
  "toLowerCase s = map lowerChar s"

definition trim :: "string \<Rightarrow> string" where
  "trim s = rev (dropWhile isWhiteSpace (rev (dropWhile isWhiteSpace s)))"

text \<open>\<open>s.includes(t)\<close> and \<open>s.startsWith(t)\<close>.\<close>

definition str_includes :: "string \<Rightarrow> string \<Rightarrow> bool" where
  "str_includes s t = sublist t s"

definition startsWith :: "string \<Rightarrow> string \<Rightarrow> bool" where
  "startsWith s t = prefix t s"

text \<open>\<open>s.split(sep)\<close> for a separator of one character: never the empty list.\<close>

fun split :: "string \<Rightarrow> char \<Rightarrow> string list" where
  "split [] sep = [[]]"
| "split (c # cs) sep =
     (if c = sep then [] # split cs sep
      else (case split cs sep of
              l # ls \<Rightarrow> (c # l) # ls
            | [] \<Rightarrow> [[c]]))"

definition digitChar :: "nat \<Rightarrow> char" where
  "digitChar d = ''0123456789'' ! (d mod 10)"

text \<open>The decimal text of a non-negative integer, as a template literal prints it.\<close>

function string_of_nat :: "nat \<Rightarrow> string" where
  "string_of_nat n =
     (if n < 10 then [digitChar n] else string_of_nat (n div 10) @ [digitChar (n mod 10)])"
  by pat_completeness auto
termination
  by (relation "measure id") auto

declare string_of_nat.simps [simp del]

definition digitValue :: "char \<Rightarrow> nat" where
  "digitValue c = (case map_of (zip ''0123456789'' [0 ..< 10]) c of Some d \<Rightarrow> d | None \<Rightarrow> 0)"

text \<open>\<open>parseInt\<close> on the text of a \<open>\d+\<close> group: a string of decimal digits.\<close>

definition parseInt :: "string \<Rightarrow> int" where
  "parseInt ds = int (foldl (\<lambda>acc c. 10 * acc + digitValue c) 0 ds)"

text \<open>\<open>Math.round\<close> on a non-negative number.\<close>

definition mathRound :: "rat \<Rightarrow> nat" where
  "mathRound x = nat \<lfloor>x + 1 / 2\<rfloor>"

section \<open>Regular expression literals\<close>

text \<open>
  The regular expression literals of the parser are written as terms of \<open>re\<close> and run by a
  backtracking matcher that lists the ways a term matches at the head of a string, in the
  order in which the backtracking of the host language tries them: the first one is the match
  the host reports. A quantifier is greedy (\<open>True\<close>) or lazy (\<open>False\<close>); a round of a starred
  term that consumes nothing is dropped, as the host does.
\<close>

datatype re =
    Eps
  | Lit char
  | AnyChar
  | Space
  | Digit
  | WordCh
  | Eos
  | Seq re re
  | Alt re re
  | Star bool re
  | Opt re
  | Grp nat re

type_synonym caps = "(nat \<times> string) list"

definition single :: "(char \<Rightarrow> bool) \<Rightarrow> string \<Rightarrow> caps \<Rightarrow> (string \<times> caps) list" where
  "single p s c = (case s of [] \<Rightarrow> [] | x # xs \<Rightarrow> if p x then [(xs, c)] else [])"

fun star :: "bool \<Rightarrow> (string \<Rightarrow> caps \<Rightarrow> (string \<times> caps) list) \<Rightarrow> nat \<Rightarrow> string \<Rightarrow> caps
    \<Rightarrow> (string \<times> caps) list" where
  "star greedy step 0 s c = [(s, c)]"
| "star greedy step (Suc n) s c =
     (let more = concat (map (\<lambda>(s', c').
                   if length s' < length s then star greedy step n s' c' else []) (step s c))
      in if greedy then more @ [(s, c)] else (s, c) # more)"

text \<open>
  \<open>rmatch r ic s c\<close>: the remainders of \<open>s\<close> after a match of \<open>r\<close> at its head, with the
  captures made (\<open>ic\<close> is the \<open>i\<close> flag).
\<close>

primrec rmatch :: "re \<Rightarrow> bool \<Rightarrow> string \<Rightarrow> caps \<Rightarrow> (string \<times> caps) list" where
  "rmatch Eps ic s c = [(s, c)]"
| "rmatch (Lit a) ic s c =
     single (\<lambda>x. if ic then upperChar x = upperChar a else x = a) s c"
| "rmatch AnyChar ic s c = single (\<lambda>x. \<not> isLineTerminator x) s c"
| "rmatch Space ic s c = single isWhiteSpace s c"
| "rmatch Digit ic s c = single isDigit s c"
| "rmatch WordCh ic s c = single isWordChar s c"
| "rmatch Eos ic s c = (if s = [] then [(s, c)] else [])"
| "rmatch (Seq r1 r2) ic s c =
     concat (map (\<lambda>(s', c'). rmatch r2 ic s' c') (rmatch r1 ic s c))"
| "rmatch (Alt r1 r2) ic s c = rmatch r1 ic s c @ rmatch r2 ic s c"
| "rmatch (Star greedy r) ic s c = star greedy (rmatch r ic) (length s) s c"
| "rmatch (Opt r) ic s c = rmatch r ic s c @ [(s, c)]"
| "rmatch (Grp k r) ic s c =
     map (\<lambda>(s', c'). (s', (k, take (length s - length s') s) # c')) (rmatch r ic s c)"

fun lits :: "string \<Rightarrow> re" where
  "lits [] = Eps"
| "lits [a] = Lit a"
| "lits (a # as) = Seq (Lit a) (lits as)"

fun seqs :: "re list \<Rightarrow> re" where
  "seqs [] = Eps"
| "seqs [r] = r"
| "seqs (r # rs) = Seq r (seqs rs)"

fun alts :: "re list \<Rightarrow> re" where
  "alts [] = Eps"
| "alts [r] = r"
| "alts (r # rs) = Alt r (alts rs)"

definition plus :: "bool \<Rightarrow> re \<Rightarrow> re" where
  "plus greedy r = Seq r (Star greedy r)"

primrec groupCount :: "re \<Rightarrow> nat" where
  "groupCount Eps = 0"
| "groupCount (Lit a) = 0"
| "groupCount AnyChar = 0"
| "groupCount Space = 0"
| "groupCount Digit = 0"
| "groupCount WordCh = 0"
| "groupCount Eos = 0"
| "groupCount (Seq r1 r2) = groupCount r1 + groupCount r2"
| "groupCount (Alt r1 r2) = groupCount r1 + groupCount r2"
| "groupCount (Star greedy r) = groupCount r"
| "groupCount (Opt r) = groupCount r"
| "groupCount (Grp k r) = Suc (groupCount r)"

text \<open>
  The array a match returns: the index of the match, and the matched text followed by the
  text of each group (\<open>None\<close> for a group that took no part: \<open>undefined\<close>).
\<close>

record RegExpMatchArray =
  index :: nat
  groups :: "string option list"

record RegexLiteral =
  body :: re
  ignoreCase :: bool

fun search :: "RegexLiteral \<Rightarrow> string \<Rightarrow> nat \<Rightarrow> RegExpMatchArray option" where
  "search rx s i =
     (case rmatch (body rx) (ignoreCase rx) s [] of
        (s', c) # _ \<Rightarrow>
          Some \<lparr> index = i,
                 groups = Some (take (length s - length s') s)
                          # map (map_of c) [1 ..< Suc (groupCount (body rx))] \<rparr>
      | [] \<Rightarrow> (case s of [] \<Rightarrow> None | _ # t \<Rightarrow> search rx t (Suc i)))"

declare search.simps [simp del]

text \<open>\<open>s.match(rx)\<close> for a literal without the \<open>g\<close> flag, and \<open>m[k]\<close>.\<close>

definition jsMatch :: "string \<Rightarrow> RegexLiteral \<Rightarrow> RegExpMatchArray option" where
  "jsMatch s rx = search rx s 0"

definition grp :: "RegExpMatchArray \<Rightarrow> nat \<Rightarrow> string option" where
  "grp m k = (if k < length (groups m) then groups m ! k else None)"

definition matchedText :: "RegExpMatchArray \<Rightarrow> string" where
  "matchedText m = (case grp m 0 of Some whole \<Rightarrow> whole | None \<Rightarrow> [])"

text \<open>\<open>s.replace(rx, '''')\<close> for a literal without the \<open>g\<close> flag: the first match is cut out.\<close>

definition replaceFirstEmpty :: "string \<Rightarrow> RegexLiteral \<Rightarrow> string" where
  "replaceFirstEmpty s rx =
     (case jsMatch s rx of
        None \<Rightarrow> s
      | Some m \<Rightarrow> take (index m) s @ drop (index m + length (matchedText m)) s)"

text \<open>
  \<open>(s.match(rx) || []).length\<close> for a literal with the \<open>g\<close> flag: the number of matches found
  from left to right, each search starting where the last match ended (one further on
  after an empty match).
\<close>

function countMatches :: "RegexLiteral \<Rightarrow> string \<Rightarrow> nat" where
  "countMatches rx s =
     (case search rx s 0 of
        None \<Rightarrow> 0
      | Some m \<Rightarrow>
          (if s = [] then 1
           else 1 + countMatches rx (drop (max 1 (index m + length (matchedText m))) s)))"
  by pat_completeness auto
termination
  by (relation "measure (\<lambda>(rx, s). length s)") auto

declare countMatches.simps [simp del]

section \<open>Regular expressions built at run time\<close>

text \<open>
  \<open>new RegExp(source, flags)\<close> belongs to the host, not to the program. The model keeps such
  a value as its source and flags and takes the two things the host decides as parameters:
  \<open>compiles\<close>, whether the constructor accepts a source (it throws a \<open>SyntaxError\<close>
  otherwise), and, where rules are run, \<open>lineMatch\<close>, the result of \<open>line.match(regex)\<close>.
  Every theorem below that speaks of all inputs holds for every choice of the two.
\<close>

datatype exn = SyntaxError string | TypeError string | Error string

fun exnMessage :: "exn \<Rightarrow> string" where
  "exnMessage (SyntaxError m) = m"
| "exnMessage (TypeError m) = m"
| "exnMessage (Error m) = m"

definition bindE :: "exn + 'a \<Rightarrow> ('a \<Rightarrow> exn + 'b) \<Rightarrow> exn + 'b" where
  "bindE x f = (case x of Inl e \<Rightarrow> Inl e | Inr a \<Rightarrow> f a)"

record RegExp =
  source :: string
  flags :: string

definition newRegExp :: "(string \<Rightarrow> bool) \<Rightarrow> string \<Rightarrow> string \<Rightarrow> exn + RegExp" where
  "newRegExp compiles src fl =
     (if compiles src then Inr \<lparr> source = src, flags = fl \<rparr>
      else Inl (SyntaxError (''Invalid regular expression: /'' @ src @ ''/'')))"

text \<open>
  One instance of \<open>compiles\<close> for the worked examples: a source is refused when a backslash
  ends it, a class is left open or the parentheses outside classes do not balance. The
  host refuses every such source (and some others).
\<close>

fun parensBalanced :: "string \<Rightarrow> nat \<Rightarrow> bool \<Rightarrow> bool" where
  "parensBalanced [] depth inClass = (depth = 0 \<and> \<not> inClass)"
| "parensBalanced (c # cs) depth inClass =
     (if c = CHR 0x5C then (case cs of [] \<Rightarrow> False | _ # cs' \<Rightarrow> parensBalanced cs' depth inClass)
      else if inClass then parensBalanced cs depth (c \<noteq> CHR '']'')
      else if c = CHR ''['' then parensBalanced cs depth True
      else if c = CHR ''('' then parensBalanced cs (Suc depth) False
      else if c = CHR '')'' then
        (case depth of 0 \<Rightarrow> False | Suc d \<Rightarrow> parensBalanced cs d False)
      else parensBalanced cs depth False)"

definition regexpSyntaxOk :: "string \<Rightarrow> bool" where
  "regexpSyntaxOk src = parensBalanced src 0 False"

section \<open>Data model (SpecDrivenParser)\<close>

text \<open>
  The interfaces of the parser as records. Fields that several interfaces share get a
  letter in front (\<open>ctype\<close>, \<open>cpattern\<close>, \<open>atype\<close>, \<open>amessage\<close>, \<open>asuggestion\<close>,
  \<open>eline\<close>, ...), and so do the names the prover keeps for itself: \<open>rule_id\<close> for
  \<open>ParsedRule.id\<close>, \<open>mvalue\<close> for \<open>metric.value\<close>, \<open>stext\<close> for
  \<open>RuleStatement.text\<close>, \<open>parseMetadata\<close> and \<open>parseConfidence\<close> for the metadata
  of the result and its confidence, \<open>info\<close> for the metadata of a specification.
  \<open>ParsedRule.severity\<close> is the string the code stores (the declared union of four
  literals is not checked at run time), \<open>condition\<close> and \<open>action\<close> are optional because
  \<open>validateRules\<close> tests them for absence, the threshold of a metric is the integer
  \<open>parseInt\<close> gives (no rule of the parser has a string there), and the time stamps
  \<open>parsedAt\<close> and \<open>compiledAt\<close> are left out.
\<close>

datatype PatternValue = PatternString string | PatternRegExp RegExp

datatype ConditionType = Pattern | Ast | Metric | Custom

datatype ActionType = Violation | Warning | Suggestion

record MetricSpec =
  name :: string
  operator :: string
  mvalue :: int

record RuleCondition =
  ctype :: ConditionType
  cpattern :: "PatternValue option"
  astQuery :: "string option"
  metric :: "MetricSpec option"
  custom :: "(string \<Rightarrow> string \<Rightarrow> bool) option"

record RuleAction =
  atype :: ActionType
  amessage :: string
  asuggestion :: "string option"
  autoFix :: "string option"

record RuleMetadata =
  originalText :: string
  confidence :: rat

record ParsedRule =
  rule_id :: string
  condition :: "RuleCondition option"
  action :: "RuleAction option"
  severity :: string
  message :: string
  suggestion :: "string option"
  metadata :: RuleMetadata

record ParseError =
  eline :: nat
  ecolumn :: nat
  emessage :: string
  eoriginalText :: string
  esuggestion :: "string option"

record ParseMetadata =
  totalRules :: nat
  successfullyParsed :: nat
  parseConfidence :: rat

record SpecParseResult =
  rules :: "ParsedRule list"
  errors :: "ParseError list"
  warnings :: "string list"
  parseMetadata :: ParseMetadata

record RuleStatement =
  stext :: string
  lineNumber :: nat

record RulePattern =
  pattern :: RegexLiteral
  pconfidence :: rat
  parser :: "RegExpMatchArray \<Rightarrow> RuleStatement \<Rightarrow> nat \<Rightarrow> exn + ParsedRule"

section \<open>The regular expression literals of the parser\<close>

definition shallClause :: re where
  "shallClause =
     Opt (seqs [plus True Space, lits ''SHALL'', plus True Space, Grp 3 (plus False AnyChar)])"

text \<open>\<^verbatim>\<open>/WHEN\s+(.+?)\s+THEN\s+(.+?)(?:\s+SHALL\s+(.+?))?$/i\<close>\<close>

definition when_then_re :: RegexLiteral where
  "when_then_re =
     \<lparr> body = seqs [lits ''WHEN'', plus True Space, Grp 1 (plus False AnyChar), plus True Space,
                     lits ''THEN'', plus True Space, Grp 2 (plus False AnyChar), shallClause, Eos],
       ignoreCase = True \<rparr>"

text \<open>\<^verbatim>\<open>/IF\s+(.+?)\s+THEN\s+(.+?)(?:\s+SHALL\s+(.+?))?$/i\<close>\<close>

definition if_then_re :: RegexLiteral where
  "if_then_re =
     \<lparr> body = seqs [lits ''IF'', plus True Space, Grp 1 (plus False AnyChar), plus True Space,
                     lits ''THEN'', plus True Space, Grp 2 (plus False AnyChar), shallClause, Eos],
       ignoreCase = True \<rparr>"

definition modalVerb :: "nat \<Rightarrow> re" where
  "modalVerb k = Grp k (alts [lits ''should'', lits ''must'', lits ''shall''])"

text \<open>\<^verbatim>\<open>/(function|method)\s+(.+?)\s+(should|must|shall)\s+(.+)/i\<close>\<close>

definition function_rule_re :: RegexLiteral where
  "function_rule_re =
     \<lparr> body = seqs [Grp 1 (alts [lits ''function'', lits ''method'']), plus True Space,
                     Grp 2 (plus False AnyChar), plus True Space, modalVerb 3, plus True Space,
                     Grp 4 (plus True AnyChar)],
       ignoreCase = True \<rparr>"

text \<open>\<^verbatim>\<open>/(variable|constant|class|interface)\s+(.+?)\s+(should|must|shall)\s+(.+)/i\<close>\<close>

definition naming_rule_re :: RegexLiteral where
  "naming_rule_re =
     \<lparr> body = seqs [Grp 1 (alts [lits ''variable'', lits ''constant'', lits ''class'',
                                  lits ''interface'']), plus True Space,
                     Grp 2 (plus False AnyChar), plus True Space, modalVerb 3, plus True Space,
                     Grp 4 (plus True AnyChar)],
       ignoreCase = True \<rparr>"

text \<open>\<^verbatim>\<open>/code\s+(should|must|shall)\s+(.+)/i\<close>\<close>

definition quality_rule_re :: RegexLiteral where
  "quality_rule_re =
     \<lparr> body = seqs [lits ''code'', plus True Space, modalVerb 1, plus True Space,
                     Grp 2 (plus True AnyChar)],
       ignoreCase = True \<rparr>"

text \<open>\<^verbatim>\<open>/(.*?)\s*(>|<|>=|<=|==|!=)\s*(\d+)/\<close>\<close>

definition metric_re :: RegexLiteral where
  "metric_re =
     \<lparr> body = seqs [Grp 1 (Star False AnyChar), Star True Space,
                     Grp 2 (alts [lits ''>'', lits ''<'', lits ''>='', lits ''<='', lits ''=='',
                                  lits ''!='']),
                     Star True Space, Grp 3 (plus True Digit)],
       ignoreCase = False \<rparr>"

text \<open>\<^verbatim>\<open>/more than (\d+)/\<close>\<close>

definition more_than_re :: RegexLiteral where
  "more_than_re = \<lparr> body = seqs [lits ''more than '', Grp 1 (plus True Digit)],
                    ignoreCase = False \<rparr>"

text \<open>\<^verbatim>\<open>/(.*?)(contains|includes|has)\s+/\<close>\<close>

definition verb_re :: RegexLiteral where
  "verb_re =
     \<lparr> body = seqs [Grp 1 (Star False AnyChar),
                     Grp 2 (alts [lits ''contains'', lits ''includes'', lits ''has'']),
                     plus True Space],
       ignoreCase = False \<rparr>"

text \<open>\<^verbatim>\<open>/function\s+\w+/g\<close>\<close>

definition function_decl_re :: RegexLiteral where
  "function_decl_re = \<lparr> body = seqs [lits ''function'', plus True Space, plus True WordCh],
                        ignoreCase = False \<rparr>"

section \<open>The parser (SpecDrivenParser)\<close>

text \<open>\<open>m[k]\<close> where the code calls a method on it: \<open>undefined\<close> makes the call throw.\<close>

definition needGroup :: "RegExpMatchArray \<Rightarrow> nat \<Rightarrow> exn + string" where
  "needGroup m k =
     (case grp m k of
        None \<Rightarrow> Inl (TypeError ''Cannot read properties of undefined'')
      | Some g \<Rightarrow> Inr g)"

text \<open>\<open>m[k]\<close> of a group that takes part in every match of its literal.\<close>

definition groupText :: "RegExpMatchArray \<Rightarrow> nat \<Rightarrow> string" where
  "groupText m k = (case grp m k of None \<Rightarrow> [] | Some g \<Rightarrow> g)"

definition keywordMappings :: "(string \<times> string) list" where
  "keywordMappings =
     [(''must'', ''error''), (''shall'', ''error''), (''should'', ''warning''), (''may'', ''info''),
      (''critical'', ''critical''), (''error'', ''error''), (''warning'', ''warning''),
      (''info'', ''info''),
      (''warn'', ''warning''), (''flag'', ''violation''), (''suggest'', ''suggestion''),
      (''block'', ''violation''), (''allow'', ''suggestion'')]"

definition mapSeverity :: "string \<Rightarrow> string" where
  "mapSeverity severityText =
     (case map_of keywordMappings (toLowerCase severityText) of
        None \<Rightarrow> ''warning''
      | Some v \<Rightarrow> if v = [] then ''warning'' else v)"

fun extractFrom :: "string list \<Rightarrow> nat \<Rightarrow> RuleStatement list" where
  "extractFrom [] i = []"
| "extractFrom (l # ls) i =
     (let line = trim l
      in if line = [] \<or> startsWith line ''#'' \<or> startsWith line ''//''
         then extractFrom ls (i + 1)
         else \<lparr> stext = line, lineNumber = i + 1 \<rparr> # extractFrom ls (i + 1))"

definition extractRuleStatements :: "string \<Rightarrow> RuleStatement list" where
  "extractRuleStatements content = extractFrom (split content CHR 0x0A) 0"

definition emptyCondition :: "ConditionType \<Rightarrow> RuleCondition" where
  "emptyCondition ty =
     \<lparr> ctype = ty, cpattern = None, astQuery = None, metric = None, custom = None \<rparr>"

definition patternCondition :: "RegExp \<Rightarrow> RuleCondition" where
  "patternCondition rx = (emptyCondition Pattern) \<lparr> cpattern := Some (PatternRegExp rx) \<rparr>"

definition metricCondition :: "string \<Rightarrow> string \<Rightarrow> int \<Rightarrow> RuleCondition" where
  "metricCondition nm op v =
     (emptyCondition Metric) \<lparr> metric := Some \<lparr> name = nm, operator = op, mvalue = v \<rparr> \<rparr>"

definition customCondition :: "(string \<Rightarrow> string \<Rightarrow> bool) \<Rightarrow> RuleCondition" where
  "customCondition f = (emptyCondition Custom) \<lparr> custom := Some f \<rparr>"

text \<open>\<^verbatim>\<open>s.replace(/[.*+?^${}()|[\]\\]/g, '\\$&')\<close>: a backslash before each listed character.\<close>

definition escapeRegExp :: "string \<Rightarrow> string" where
  "escapeRegExp s =
     concat (map (\<lambda>c. if c \<in> set (''.*+?^${}()|[]'' @ [backslash]) then [backslash, c] else [c]) s)"

text \<open>The last two branches of \<open>parseCondition\<close>: the text after a verb, or the whole text.\<close>

definition parsePatternCondition :: "(string \<Rightarrow> bool) \<Rightarrow> string \<Rightarrow> exn + RuleCondition" where
  "parsePatternCondition compiles txt =
     (if str_includes txt ''contains'' \<or> str_includes txt ''includes'' \<or> str_includes txt ''has''
      then bindE (newRegExp compiles (escapeRegExp (replaceFirstEmpty txt verb_re)) ''gi'')
             (\<lambda>rx. Inr (patternCondition rx))
      else bindE (newRegExp compiles (escapeRegExp txt) ''gi'') (\<lambda>rx. Inr (patternCondition rx)))"

definition parseCondition :: "(string \<Rightarrow> bool) \<Rightarrow> string \<Rightarrow> exn + RuleCondition" where
  "parseCondition compiles conditionText =
     (let txt = trim (toLowerCase conditionText)
      in case jsMatch txt metric_re of
           Some metricMatch \<Rightarrow>
             bindE (needGroup metricMatch 1) (\<lambda>g1.
               Inr (metricCondition (trim g1) (groupText metricMatch 2)
                      (parseInt (groupText metricMatch 3))))
         | None \<Rightarrow>
             if str_includes txt ''console.log''
             then Inr (patternCondition \<lparr> source = ''console'' @ [backslash] @ ''.log'', flags = ''gi'' \<rparr>)
             else if str_includes txt ''var declaration'' \<or> str_includes txt ''uses var''
             then Inr (patternCondition
                    \<lparr> source = [backslash] @ ''bvar'' @ [backslash] @ ''s+'' @ [backslash] @ ''w+'',
                       flags = ''gi'' \<rparr>)
             else if str_includes txt ''function'' \<and> str_includes txt ''more than''
             then (case jsMatch txt more_than_re of
                     Some numberMatch \<Rightarrow>
                       Inr (metricCondition ''function lines'' ''>''
                              (parseInt (groupText numberMatch 1)))
                   | None \<Rightarrow> parsePatternCondition compiles txt)
             else parsePatternCondition compiles txt)"

definition parseAction :: "string \<Rightarrow> RuleAction" where
  "parseAction actionText =
     (let txt = trim (toLowerCase actionText)
      in if str_includes txt ''warn'' \<or> str_includes txt ''warning''
         then \<lparr> atype = Warning, amessage = actionText,
                asuggestion = Some (''Consider addressing: '' @ actionText), autoFix = None \<rparr>
         else if str_includes txt ''suggest'' \<or> str_includes txt ''recommend''
         then \<lparr> atype = Suggestion, amessage = actionText,
                asuggestion = Some actionText, autoFix = None \<rparr>
         else \<lparr> atype = Violation, amessage = actionText,
                asuggestion = Some (''Fix: '' @ actionText), autoFix = None \<rparr>)"

text \<open>\<open>match[3] ? this.mapSeverity(match[3]) : 'warning'\<close>\<close>

definition clauseSeverity :: "RegExpMatchArray \<Rightarrow> string" where
  "clauseSeverity m =
     (case grp m 3 of
        None \<Rightarrow> ''warning''
      | Some g \<Rightarrow> if g = [] then ''warning'' else mapSeverity g)"

definition parseWhenThenRule ::
    "(string \<Rightarrow> bool) \<Rightarrow> RegExpMatchArray \<Rightarrow> RuleStatement \<Rightarrow> nat \<Rightarrow> exn + ParsedRule" where
  "parseWhenThenRule compiles m statement idx =
     bindE (needGroup m 1) (\<lambda>g1. bindE (needGroup m 2) (\<lambda>g2.
       let cond = trim g1; act = trim g2; sev = clauseSeverity m
       in bindE (parseCondition compiles cond) (\<lambda>c.
            Inr \<lparr> rule_id = ''when_then_'' @ string_of_nat idx,
                  condition = Some c,
                  action = Some (parseAction act),
                  severity = sev,
                  message = cond @ '' - '' @ act,
                  suggestion = None,
                  metadata = \<lparr> originalText = stext statement, confidence = 9 / 10 \<rparr> \<rparr>)))"

definition parseIfThenRule ::
    "(string \<Rightarrow> bool) \<Rightarrow> RegExpMatchArray \<Rightarrow> RuleStatement \<Rightarrow> nat \<Rightarrow> exn + ParsedRule" where
  "parseIfThenRule compiles m statement idx =
     bindE (needGroup m 1) (\<lambda>g1. bindE (needGroup m 2) (\<lambda>g2.
       let cond = trim g1; act = trim g2; sev = clauseSeverity m
       in bindE (parseCondition compiles cond) (\<lambda>c.
            Inr \<lparr> rule_id = ''if_then_'' @ string_of_nat idx,
                  condition = Some c,
                  action = Some (parseAction act),
                  severity = sev,
                  message = cond @ '' - '' @ act,
                  suggestion = None,
                  metadata = \<lparr> originalText = stext statement, confidence = 85 / 100 \<rparr> \<rparr>)))"

definition parseFunctionRule ::
    "(string \<Rightarrow> bool) \<Rightarrow> RegExpMatchArray \<Rightarrow> RuleStatement \<Rightarrow> nat \<Rightarrow> exn + ParsedRule" where
  "parseFunctionRule compiles m statement idx =
     bindE (needGroup m 2) (\<lambda>g2. bindE (needGroup m 3) (\<lambda>g3. bindE (needGroup m 4) (\<lambda>g4.
       let target = trim g2; sev = mapSeverity g3; requirement = trim g4
       in bindE (newRegExp compiles
                   (''function'' @ [backslash] @ ''s+'' @ [backslash] @ ''w*'' @ target
                    @ [backslash] @ ''w*'') ''i'') (\<lambda>rx.
            Inr \<lparr> rule_id = ''function_'' @ string_of_nat idx,
                  condition = Some (patternCondition rx),
                  action = Some \<lparr> atype = Violation,
                                  amessage = ''Function '' @ target @ '' '' @ requirement,
                                  asuggestion = Some (''Ensure function '' @ target
                                    @ '' meets requirement: '' @ requirement),
                                  autoFix = None \<rparr>,
                  severity = sev,
                  message = ''Function '' @ target @ '' '' @ requirement,
                  suggestion = None,
                  metadata = \<lparr> originalText = stext statement, confidence = 8 / 10 \<rparr> \<rparr>))))"

definition parseNamingRule ::
    "(string \<Rightarrow> bool) \<Rightarrow> RegExpMatchArray \<Rightarrow> RuleStatement \<Rightarrow> nat \<Rightarrow> exn + ParsedRule" where
  "parseNamingRule compiles m statement idx =
     bindE (needGroup m 1) (\<lambda>g1. bindE (needGroup m 2) (\<lambda>g2. bindE (needGroup m 3) (\<lambda>g3.
     bindE (needGroup m 4) (\<lambda>g4.
       let elementType = trim g1; target = trim g2; sev = mapSeverity g3; requirement = trim g4
       in bindE (newRegExp compiles
                   (''('' @ elementType @ '')'' @ [backslash] @ ''s+'' @ [backslash] @ ''w*'' @ target
                    @ [backslash] @ ''w*'') ''i'') (\<lambda>rx.
            Inr \<lparr> rule_id = ''naming_'' @ string_of_nat idx,
                  condition = Some (patternCondition rx),
                  action = Some \<lparr> atype = Violation,
                                  amessage = elementType @ '' '' @ target @ '' '' @ requirement,
                                  asuggestion = Some (''Ensure '' @ elementType
                                    @ '' naming follows requirement: '' @ requirement),
                                  autoFix = None \<rparr>,
                  severity = sev,
                  message = elementType @ '' '' @ target @ '' '' @ requirement,
                  suggestion = None,
                  metadata = \<lparr> originalText = stext statement, confidence = 75 / 100 \<rparr> \<rparr>)))))"

definition parseQualityRule ::
    "RegExpMatchArray \<Rightarrow> RuleStatement \<Rightarrow> nat \<Rightarrow> exn + ParsedRule" where
  "parseQualityRule m statement idx =
     bindE (needGroup m 1) (\<lambda>g1. bindE (needGroup m 2) (\<lambda>g2.
       let sev = mapSeverity g1; requirement = trim g2
       in Inr \<lparr> rule_id = ''quality_'' @ string_of_nat idx,
                condition = Some (customCondition (\<lambda>content language. True)),
                action = Some \<lparr> atype = Suggestion, amessage = ''Code '' @ requirement,
                                asuggestion = Some requirement, autoFix = None \<rparr>,
                severity = sev,
                message = ''Code '' @ requirement,
                suggestion = None,
                metadata = \<lparr> originalText = stext statement, confidence = 7 / 10 \<rparr> \<rparr>))"

definition parseGenericRule :: "RuleStatement \<Rightarrow> nat \<Rightarrow> ParsedRule option" where
  "parseGenericRule statement idx =
     (let txt = toLowerCase (stext statement);
          sev = (if str_includes txt ''must'' \<or> str_includes txt ''shall''
                    \<or> str_includes txt ''critical'' then ''error''
                 else if str_includes txt ''should'' \<or> str_includes txt ''warning''
                 then ''warning''
                 else ''info'')
      in Some \<lparr> rule_id = ''generic_'' @ string_of_nat idx,
                 condition = Some (customCondition (\<lambda>content language. False)),
                 action = Some \<lparr> atype = Suggestion, amessage = stext statement,
                                 asuggestion = Some ''Review this quality requirement'',
                                 autoFix = None \<rparr>,
                 severity = sev,
                 message = stext statement,
                 suggestion = None,
                 metadata = \<lparr> originalText = stext statement, confidence = 3 / 10 \<rparr> \<rparr>)"

text \<open>The templates, in the order in which the constructor enters them in the map.\<close>

definition rulePatterns :: "(string \<Rightarrow> bool) \<Rightarrow> (string \<times> RulePattern) list" where
  "rulePatterns compiles =
     [(''when_then'', \<lparr> pattern = when_then_re, pconfidence = 9 / 10,
                        parser = parseWhenThenRule compiles \<rparr>),
      (''if_then'', \<lparr> pattern = if_then_re, pconfidence = 85 / 100,
                      parser = parseIfThenRule compiles \<rparr>),
      (''function_rule'', \<lparr> pattern = function_rule_re, pconfidence = 8 / 10,
                            parser = parseFunctionRule compiles \<rparr>),
      (''naming_rule'', \<lparr> pattern = naming_rule_re, pconfidence = 75 / 100,
                          parser = parseNamingRule compiles \<rparr>),
      (''quality_rule'', \<lparr> pattern = quality_rule_re, pconfidence = 7 / 10,
                           parser = parseQualityRule \<rparr>)]"

text \<open>
  The loop of \<open>parseRuleStatement\<close> over the templates: a template that does not match, or
  whose builder throws, hands over to the next one, and the fallback builder comes last.
\<close>

fun tryPatterns :: "(string \<times> RulePattern) list \<Rightarrow> RuleStatement \<Rightarrow> nat
    \<Rightarrow> exn + ParsedRule option" where
  "tryPatterns [] statement idx = Inr (parseGenericRule statement idx)"
| "tryPatterns ((patternName, p) # ps) statement idx =
     (case jsMatch (stext statement) (pattern p) of
        None \<Rightarrow> tryPatterns ps statement idx
      | Some m \<Rightarrow>
          (case parser p m statement idx of
             Inr rule \<Rightarrow>
               Inr (Some (rule \<lparr> metadata := (metadata rule) \<lparr> confidence := pconfidence p \<rparr> \<rparr>))
           | Inl e \<Rightarrow> tryPatterns ps statement idx))"

definition parseRuleStatement :: "(string \<Rightarrow> bool) \<Rightarrow> RuleStatement \<Rightarrow> nat
    \<Rightarrow> exn + ParsedRule option" where
  "parseRuleStatement compiles statement idx = tryPatterns (rulePatterns compiles) statement idx"

definition generateSuggestion :: "string \<Rightarrow> string" where
  "generateSuggestion original =
     ''Try using patterns like \"WHEN [condition] THEN [action]\" or \"IF [condition] THEN [action]\". Example: \"WHEN function has more than 20 lines THEN warn about complexity\"''"

text \<open>The loop of \<open>parseQualitySpec\<close> over the statements; \<open>i\<close> is the loop counter.\<close>

fun parseStatements :: "(string \<Rightarrow> bool) \<Rightarrow> RuleStatement list \<Rightarrow> nat \<Rightarrow> ParsedRule list
    \<Rightarrow> ParseError list \<Rightarrow> ParsedRule list \<times> ParseError list" where
  "parseStatements compiles [] i rs es = (rs, es)"
| "parseStatements compiles (statement # rest) i rs es =
     (case parseRuleStatement compiles statement (i + 1) of
        Inr (Some parsedRule) \<Rightarrow> parseStatements compiles rest (i + 1) (rs @ [parsedRule]) es
      | Inr None \<Rightarrow> parseStatements compiles rest (i + 1) rs es
      | Inl e \<Rightarrow>
          parseStatements compiles rest (i + 1) rs
            (es @ [\<lparr> eline = i + 1, ecolumn = 1, emessage = exnMessage e,
                      eoriginalText = stext statement,
                      esuggestion = Some (generateSuggestion (stext statement)) \<rparr>]))"

text \<open>The body of the loop of \<open>validateRules\<close>, one definition for each of its effects.\<close>

definition idCount :: "(string \<rightharpoonup> nat) \<Rightarrow> ParsedRule \<Rightarrow> nat" where
  "idCount ruleIds rule = (case ruleIds (rule_id rule) of None \<Rightarrow> 0 | Some n \<Rightarrow> n)"

definition duplicateWarning :: "nat \<Rightarrow> ParsedRule \<Rightarrow> string list" where
  "duplicateWarning count rule =
     (if count > 0 then [''Duplicate rule ID found: '' @ rule_id rule] else [])"

definition incompleteError :: "ParsedRule \<Rightarrow> ParseError list" where
  "incompleteError rule =
     (if Option.is_none (condition rule) \<or> Option.is_none (action rule)
      then [\<lparr> eline = 0, ecolumn = 0,
               emessage = ''Incomplete rule: '' @ rule_id rule,
               eoriginalText = originalText (metadata rule),
               esuggestion = Some ''Ensure rule has both condition and action'' \<rparr>]
      else [])"

definition lowConfidenceWarning :: "ParsedRule \<Rightarrow> string list" where
  "lowConfidenceWarning rule =
     (if confidence (metadata rule) < 7 / 10
      then [''Low confidence rule: '' @ rule_id rule @ '' (''
            @ string_of_nat (mathRound (confidence (metadata rule) * 100)) @ ''%)'']
      else [])"

fun validateLoop :: "ParsedRule list \<Rightarrow> (string \<rightharpoonup> nat) \<Rightarrow> string list \<Rightarrow> ParseError list
    \<Rightarrow> string list \<times> ParseError list" where
  "validateLoop [] ruleIds ws es = (ws, es)"
| "validateLoop (rule # rest) ruleIds ws es =
     validateLoop rest (ruleIds(rule_id rule \<mapsto> idCount ruleIds rule + 1))
       (ws @ duplicateWarning (idCount ruleIds rule) rule @ lowConfidenceWarning rule)
       (es @ incompleteError rule)"

definition validateRules :: "ParsedRule list \<Rightarrow> string list \<times> ParseError list" where
  "validateRules rs = validateLoop rs Map.empty [] []"

definition calculateConfidence :: "ParsedRule list \<Rightarrow> ParseError list \<Rightarrow> nat \<Rightarrow> rat" where
  "calculateConfidence rs es totalStatements =
     (if totalStatements = 0 then 0
      else let successRate = (of_nat totalStatements - of_nat (length es)) / of_nat totalStatements;
               avgRuleConfidence =
                 (if length rs > 0
                  then foldl (\<lambda>sum rule. sum + confidence (metadata rule)) 0 rs / of_nat (length rs)
                  else 0)
           in (successRate + avgRuleConfidence) / 2)"

record SpecInfo =
  version :: "string option"
  author :: "string option"
  description :: "string option"

record QualitySpec =
  content :: string
  info :: "SpecInfo option"

text \<open>
  The rules built and the errors recorded by the loop, and the errors after validation:
  the values of \<open>rules\<close> and \<open>errors\<close> in \<open>parseQualitySpec\<close> before the result is put
  together.
\<close>

definition builtRules :: "(string \<Rightarrow> bool) \<Rightarrow> string \<Rightarrow> ParsedRule list" where
  "builtRules compiles txt = fst (parseStatements compiles (extractRuleStatements txt) 0 [] [])"

definition allErrors :: "(string \<Rightarrow> bool) \<Rightarrow> string \<Rightarrow> ParseError list" where
  "allErrors compiles txt =
     snd (parseStatements compiles (extractRuleStatements txt) 0 [] [])
     @ snd (validateRules (builtRules compiles txt))"

text \<open>
  None of the calls inside the outer \<open>try\<close> of \<open>parseQualitySpec\<close> throws, so its \<open>catch\<close>
  is no branch of the model and the function returns its result as it is.
\<close>

definition parseQualitySpec :: "(string \<Rightarrow> bool) \<Rightarrow> QualitySpec \<Rightarrow> SpecParseResult" where
  "parseQualitySpec compiles spec =
     (let statements = extractRuleStatements (content spec);
          rs = builtRules compiles (content spec);
          es = allErrors compiles (content spec);
          ws = fst (validateRules rs);
          conf = calculateConfidence rs es (length statements)
      in \<lparr> rules = filter (\<lambda>rule. confidence (metadata rule) > 1 / 2) rs,
            errors = es,
            warnings = ws,
            parseMetadata = \<lparr> totalRules = length statements,
                              successfullyParsed = length rs,
                              parseConfidence = conf \<rparr> \<rparr>)"

section \<open>Executable rules (SpecDrivenParser)\<close>

text \<open>
  A violation carries no \<open>id\<close> in the model: the code makes it from the clock and the
  random number generator, and nothing below depends on it. A matcher or an action of an
  executable rule may throw, so both return a sum.
\<close>

record RuleMatch =
  mline :: nat
  mcolumn :: nat
  mtext :: string
  mcontext :: string

record RuleViolation =
  vseverity :: string
  vmessage :: string
  vline :: nat
  vcolumn :: nat
  vrule :: string
  vsuggestion :: "string option"

record ExecutableRule =
  xid :: string
  findMatches :: "string \<Rightarrow> string \<Rightarrow> exn + RuleMatch list"
  createViolation :: "RuleMatch \<Rightarrow> exn + RuleViolation"
  originalRule :: "ParsedRule option"

definition calculateMetric :: "string \<Rightarrow> string \<Rightarrow> nat" where
  "calculateMetric txt metricName =
     (let nm = toLowerCase metricName
      in if nm = ''lines'' \<or> nm = ''line count'' then length (split txt CHR 0x0A)
         else if nm = ''characters'' \<or> nm = ''character count'' then length txt
         else if nm = ''functions'' then countMatches function_decl_re txt
         else 0)"

definition compareMetric :: "int \<Rightarrow> string \<Rightarrow> int \<Rightarrow> bool" where
  "compareMetric v op numThreshold =
     (if op = ''>'' then v > numThreshold
      else if op = ''<'' then v < numThreshold
      else if op = ''>='' then v \<ge> numThreshold
      else if op = ''<='' then v \<le> numThreshold
      else if op = ''=='' then v = numThreshold
      else if op = ''!='' then v \<noteq> numThreshold
      else False)"

text \<open>The \<open>forEach\<close> over the lines in the pattern case of the matcher.\<close>

fun scanLines :: "(RegExp \<Rightarrow> string \<Rightarrow> (nat option \<times> string) option) \<Rightarrow> RegExp \<Rightarrow> string list
    \<Rightarrow> nat \<Rightarrow> RuleMatch list" where
  "scanLines lineMatch rx [] i = []"
| "scanLines lineMatch rx (l # ls) i =
     (case lineMatch rx l of
        None \<Rightarrow> scanLines lineMatch rx ls (i + 1)
      | Some (ix, matched) \<Rightarrow>
          \<lparr> mline = i + 1, mcolumn = (case ix of None \<Rightarrow> 0 | Some k \<Rightarrow> k),
             mtext = matched, mcontext = l \<rparr> # scanLines lineMatch rx ls (i + 1))"

text \<open>\<open>createMatcher(condition).findMatches(content, language)\<close>\<close>

definition createMatcher :: "(string \<Rightarrow> bool) \<Rightarrow> (RegExp \<Rightarrow> string \<Rightarrow> (nat option \<times> string) option)
    \<Rightarrow> RuleCondition option \<Rightarrow> string \<Rightarrow> string \<Rightarrow> exn + RuleMatch list" where
  "createMatcher compiles lineMatch cond txt language =
     (case cond of
        None \<Rightarrow> Inl (TypeError ''Cannot read properties of undefined'')
      | Some c \<Rightarrow>
          (case ctype c of
             Pattern \<Rightarrow>
               (case cpattern c of
                  None \<Rightarrow> Inr []
                | Some (PatternRegExp rx) \<Rightarrow> Inr (scanLines lineMatch rx (split txt CHR 0x0A) 0)
                | Some (PatternString src) \<Rightarrow>
                    if src = [] then Inr []
                    else bindE (newRegExp compiles src ''gi'')
                           (\<lambda>rx. Inr (scanLines lineMatch rx (split txt CHR 0x0A) 0)))
           | Metric \<Rightarrow>
               (case metric c of
                  None \<Rightarrow> Inr []
                | Some ms \<Rightarrow>
                    if compareMetric (int (calculateMetric txt (name ms))) (operator ms) (mvalue ms)
                    then Inr [\<lparr> mline = 1, mcolumn = 1,
                                mtext = name ms @ '': ''
                                        @ string_of_nat (calculateMetric txt (name ms)),
                                mcontext = ''File-level metric'' \<rparr>]
                    else Inr [])
           | Custom \<Rightarrow>
               (case custom c of
                  None \<Rightarrow> Inr []
                | Some f \<Rightarrow>
                    if f txt language
                    then Inr [\<lparr> mline = 1, mcolumn = 1, mtext = ''Custom condition matched'',
                                mcontext = ''File-level check'' \<rparr>]
                    else Inr [])
           | Ast \<Rightarrow> Inr []))"

text \<open>\<open>createAction(action, severity, message).createViolation(match)\<close>\<close>

definition createAction :: "RuleAction option \<Rightarrow> string \<Rightarrow> string \<Rightarrow> RuleMatch
    \<Rightarrow> exn + RuleViolation" where
  "createAction act sev msg m =
     (case act of
        None \<Rightarrow> Inl (TypeError ''Cannot read properties of undefined'')
      | Some a \<Rightarrow>
          Inr \<lparr> vseverity = sev,
                vmessage = (if amessage a = [] then msg else amessage a),
                vline = mline m, vcolumn = mcolumn m,
                vrule = ''spec-driven-rule'',
                vsuggestion = asuggestion a \<rparr>)"

definition convertToExecutableRules :: "(string \<Rightarrow> bool)
    \<Rightarrow> (RegExp \<Rightarrow> string \<Rightarrow> (nat option \<times> string) option) \<Rightarrow> ParsedRule list
    \<Rightarrow> ExecutableRule list" where
  "convertToExecutableRules compiles lineMatch parsedRules =
     map (\<lambda>rule. \<lparr> xid = rule_id rule,
                    findMatches = createMatcher compiles lineMatch (condition rule),
                    createViolation = createAction (action rule) (severity rule) (message rule),
                    originalRule = Some rule \<rparr>) parsedRules"

section \<open>The execution engine (AnalysisService)\<close>

text \<open>
  The request, with \<open>code\<close> for its \<open>content\<close> and \<open>reqContext\<close> for its \<open>context\<close>.
  \<open>customRules\<close>, the map of the service from a team or standard to its rules, is an
  argument of the functions that read it.
\<close>

record AnalysisRequest =
  filePath :: string
  code :: string
  language :: string
  userId :: string
  standards :: "string list option"
  reqContext :: "(string \<rightharpoonup> string) option"

text \<open>
  The inner loop over the matches of one rule, inside the \<open>try\<close>: a violation is pushed as
  soon as it is made, and a throw of the action leaves the loop.
\<close>

fun pushViolations :: "(RuleMatch \<Rightarrow> exn + RuleViolation) \<Rightarrow> RuleMatch list \<Rightarrow> RuleViolation list
    \<Rightarrow> RuleViolation list" where
  "pushViolations act [] violations = violations"
| "pushViolations act (m # ms) violations =
     (case act m of
        Inl e \<Rightarrow> violations
      | Inr violation \<Rightarrow> pushViolations act ms (violations @ [violation]))"

text \<open>
  The loop over the rules of one team or standard: the \<open>catch\<close> writes a warning to the
  console and goes on with the next rule.
\<close>

fun applyRules :: "ExecutableRule list \<Rightarrow> string \<Rightarrow> string \<Rightarrow> RuleViolation list
    \<Rightarrow> RuleViolation list" where
  "applyRules [] txt lang violations = violations"
| "applyRules (rule # rest) txt lang violations =
     applyRules rest txt lang
       (case findMatches rule txt lang of
          Inl e \<Rightarrow> violations
        | Inr ms \<Rightarrow> pushViolations (createViolation rule) ms violations)"

fun applyStandards :: "(string \<rightharpoonup> ExecutableRule list) \<Rightarrow> string list \<Rightarrow> string \<Rightarrow> string
    \<Rightarrow> RuleViolation list \<Rightarrow> RuleViolation list" where
  "applyStandards customRules [] txt lang violations = violations"
| "applyStandards customRules (standard # rest) txt lang violations =
     applyStandards customRules rest txt lang
       (case customRules standard of
          None \<Rightarrow> violations
        | Some globalRules \<Rightarrow> applyRules globalRules txt lang violations)"

text \<open>\<open>request.context?.teamId\<close>, when it is a non-empty string.\<close>

definition teamIdOf :: "AnalysisRequest \<Rightarrow> string option" where
  "teamIdOf request =
     (case reqContext request of
        None \<Rightarrow> None
      | Some ctx \<Rightarrow> (case ctx ''teamId'' of
                      None \<Rightarrow> None
                    | Some t \<Rightarrow> if t = [] then None else Some t))"

definition applySpecDrivenRules :: "(string \<rightharpoonup> ExecutableRule list) \<Rightarrow> AnalysisRequest
    \<Rightarrow> RuleViolation list" where
  "applySpecDrivenRules customRules request =
     (let violations =
            (case teamIdOf request of
               None \<Rightarrow> []
             | Some teamId \<Rightarrow>
                 (case customRules teamId of
                    None \<Rightarrow> []
                  | Some teamRules \<Rightarrow> applyRules teamRules (code request) (language request) []))
      in case standards request of
           None \<Rightarrow> violations
         | Some stds \<Rightarrow> applyStandards customRules stds (code request) (language request) violations)"

section \<open>Notions used in the statements\<close>

text \<open>A rule that has its condition and its action, and a confidence between 0 and 1.\<close>

definition wellBuilt :: "ParsedRule \<Rightarrow> bool" where
  "wellBuilt r =
     (condition r \<noteq> None \<and> action r \<noteq> None
      \<and> 0 \<le> confidence (metadata r) \<and> confidence (metadata r) \<le> 1)"

text \<open>
  The template that builds the rule of a statement: the first one, in the order of
  \<open>rulePatterns\<close>, that matches and whose builder returns; \<open>None\<close> when the fallback
  builder makes the rule. \<open>idPrefix\<close> is the text each builder puts in front of the
  ordinal.
\<close>

fun winner :: "(string \<times> RulePattern) list \<Rightarrow> RuleStatement \<Rightarrow> nat \<Rightarrow> string option" where
  "winner [] statement idx = None"
| "winner ((patternName, p) # ps) statement idx =
     (case jsMatch (stext statement) (pattern p) of
        None \<Rightarrow> winner ps statement idx
      | Some m \<Rightarrow>
          (case parser p m statement idx of
             Inr rule \<Rightarrow> Some patternName
           | Inl e \<Rightarrow> winner ps statement idx))"

definition idPrefix :: "string option \<Rightarrow> string" where
  "idPrefix w =
     (case w of
        None \<Rightarrow> ''generic''
      | Some patternName \<Rightarrow>
          (case map_of [(''when_then'', ''when_then''), (''if_then'', ''if_then''),
                        (''function_rule'', ''function''), (''naming_rule'', ''naming''),
                        (''quality_rule'', ''quality'')] patternName of
             None \<Rightarrow> patternName
           | Some pre \<Rightarrow> pre))"

text \<open>The literals of the five templates, and a statement that none of them matches.\<close>

definition templateLiterals :: "RegexLiteral list" where
  "templateLiterals =
     [when_then_re, if_then_re, function_rule_re, naming_rule_re, quality_rule_re]"

definition matchesNoTemplate :: "RuleStatement \<Rightarrow> bool" where
  "matchesNoTemplate statement =
     list_all (\<lambda>rx. jsMatch (stext statement) rx = None) templateLiterals"

text \<open>
  The overall confidence as the specification words it: the mean of the success rate and
  of the average confidence of the rules built.
\<close>

definition specSuccessRate :: "nat \<Rightarrow> nat \<Rightarrow> rat" where
  "specSuccessRate totalStatements errorCount =
     (if totalStatements = 0 then 0
      else (of_nat totalStatements - of_nat errorCount) / of_nat totalStatements)"

definition specAvgRuleConfidence :: "ParsedRule list \<Rightarrow> rat" where
  "specAvgRuleConfidence rs =
     (if length rs = 0 then 0
      else sum_list (map (\<lambda>r. confidence (metadata r)) rs) / of_nat (length rs))"

definition specOverallConfidence :: "nat \<Rightarrow> nat \<Rightarrow> ParsedRule list \<Rightarrow> rat" where
  "specOverallConfidence totalStatements errorCount rs =
     (specSuccessRate totalStatements errorCount + specAvgRuleConfidence rs) / 2"

text \<open>
  What one rule adds to the violations of a run: nothing when its matcher throws, and
  otherwise the violations of its matches, in match order, up to the first match on which
  its action throws.
\<close>

fun okPrefix :: "(RuleMatch \<Rightarrow> exn + RuleViolation) \<Rightarrow> RuleMatch list \<Rightarrow> RuleViolation list" where
  "okPrefix act [] = []"
| "okPrefix act (m # ms) =
     (case act m of
        Inl e \<Rightarrow> []
      | Inr violation \<Rightarrow> violation # okPrefix act ms)"

definition contribution :: "string \<Rightarrow> string \<Rightarrow> ExecutableRule \<Rightarrow> RuleViolation list" where
  "contribution doc lang rule =
     (case findMatches rule doc lang of
        Inl e \<Rightarrow> []
      | Inr ms \<Rightarrow> okPrefix (createViolation rule) ms)"

text \<open>
  The same under the reading that a rule which throws anywhere, in its matcher or in its
  action, adds nothing at all.
\<close>

definition throwsOn :: "string \<Rightarrow> string \<Rightarrow> ExecutableRule \<Rightarrow> bool" where
  "throwsOn doc lang rule =
     (case findMatches rule doc lang of
        Inl e \<Rightarrow> True
      | Inr ms \<Rightarrow> list_ex (\<lambda>m. isl (createViolation rule m)) ms)"

definition allOrNothing :: "string \<Rightarrow> string \<Rightarrow> ExecutableRule \<Rightarrow> RuleViolation list" where
  "allOrNothing doc lang rule =
     (if throwsOn doc lang rule then [] else contribution doc lang rule)"

text \<open>The rules a request runs, in the order in which \<open>applySpecDrivenRules\<close> visits them.\<close>

definition rulesOf :: "(string \<rightharpoonup> ExecutableRule list) \<Rightarrow> string \<Rightarrow> ExecutableRule list" where
  "rulesOf customRules key = (case customRules key of None \<Rightarrow> [] | Some rs \<Rightarrow> rs)"

definition rulesInOrder :: "(string \<rightharpoonup> ExecutableRule list) \<Rightarrow> AnalysisRequest
    \<Rightarrow> ExecutableRule list" where
  "rulesInOrder customRules request =
     (case teamIdOf request of None \<Rightarrow> [] | Some teamId \<Rightarrow> rulesOf customRules teamId)
     @ (case standards request of
          None \<Rightarrow> []
        | Some stds \<Rightarrow> concat (map (rulesOf customRules) stds))"

text \<open>
  Two hand-made rules for the examples: one finds a match on line 1 and on line 2 and its
  action throws on the second; the other finds one match and never throws.
\<close>

definition matchAt :: "nat \<Rightarrow> RuleMatch" where
  "matchAt k = \<lparr> mline = k, mcolumn = 1, mtext = ''x'', mcontext = ''x'' \<rparr>"

definition violationAt :: "nat \<Rightarrow> RuleViolation" where
  "violationAt k = \<lparr> vseverity = ''warning'', vmessage = ''m'', vline = k, vcolumn = 1,
                      vrule = ''spec-driven-rule'', vsuggestion = None \<rparr>"

definition throwsOnSecond :: ExecutableRule where
  "throwsOnSecond =
     \<lparr> xid = ''a'',
        findMatches = (\<lambda>doc lang. Inr [matchAt 1, matchAt 2]),
        createViolation = (\<lambda>m. if mline m = 1 then Inr (violationAt 1) else Inl (Error ''boom'')),
        originalRule = None \<rparr>"

definition neverThrows :: ExecutableRule where
  "neverThrows =
     \<lparr> xid = ''b'',
        findMatches = (\<lambda>doc lang. Inr [matchAt 7]),
        createViolation = (\<lambda>m. Inr (violationAt (mline m))),
        originalRule = None \<rparr>"

definition matcherThrows :: ExecutableRule where
  "matcherThrows =
     \<lparr> xid = ''c'',
        findMatches = (\<lambda>doc lang. Inl (Error ''boom'')),
        createViolation = (\<lambda>m. Inr (violationAt (mline m))),
        originalRule = None \<rparr>"

text \<open>
  The condition phrases that reach the fourth heuristic of \<open>parseCondition\<close>: no numeric
  comparison, no \<open>console.log\<close>, no \<open>var\<close> phrase, and both \<open>function\<close> and
  \<open>more than\<close> followed by a number.
\<close>

definition functionLengthPhrase :: "string \<Rightarrow> bool" where
  "functionLengthPhrase conditionText =
     (let phrase = trim (toLowerCase conditionText)
      in jsMatch phrase metric_re = None
         \<and> \<not> str_includes phrase ''console.log''
         \<and> \<not> str_includes phrase ''var declaration''
         \<and> \<not> str_includes phrase ''uses var''
         \<and> str_includes phrase ''function''
         \<and> str_includes phrase ''more than''
         \<and> jsMatch phrase more_than_re \<noteq> None)"

text \<open>
  The same without the first four conditions: a phrase that has both \<open>function\<close> and
  \<open>more than\<close> followed by a number, whichever heuristic takes it.
\<close>

definition combinesFunctionMoreThan :: "string \<Rightarrow> bool" where
  "combinesFunctionMoreThan conditionText =
     (let phrase = trim (toLowerCase conditionText)
      in str_includes phrase ''function''
         \<and> str_includes phrase ''more than''
         \<and> jsMatch phrase more_than_re \<noteq> None)"

text \<open>A content of four lines with a function declaration on each.\<close>

definition fourFunctions :: string where
  "fourFunctions = ''function a() {}\<newline>function b() {}\<newline>function c() {}\<newline>function d() {}''"

text \<open>Contents of seven and of three lines.\<close>

definition sevenLines :: string where
  "sevenLines = ''line 1\<newline>line 2\<newline>line 3\<newline>line 4\<newline>line 5\<newline>line 6\<newline>line 7''"

definition threeLines :: string where
  "threeLines = ''line 1\<newline>line 2\<newline>line 3''"

section \<open>Every statement yields one rule\<close>

lemma parseGenericRule_Some:
  "\<exists>r. parseGenericRule st idx = Some r \<and> condition r \<noteq> None \<and> action r \<noteq> None
     \<and> confidence (metadata r) = 3 / 10 \<and> rule_id r = ''generic_'' @ string_of_nat idx"
  by (simp add: parseGenericRule_def Let_def)

lemma bindE_Inr: "bindE x f = Inr y \<Longrightarrow> \<exists>a. x = Inr a \<and> f a = Inr y"
  by (cases x) (simp_all add: bindE_def)

lemma parseWhenThenRule_Inr:
  "parseWhenThenRule compiles m st idx = Inr rule \<Longrightarrow>
     condition rule \<noteq> None \<and> action rule \<noteq> None \<and> rule_id rule = ''when_then_'' @ string_of_nat idx"
  unfolding parseWhenThenRule_def Let_def
  by (auto dest!: bindE_Inr)

lemma parseIfThenRule_Inr:
  "parseIfThenRule compiles m st idx = Inr rule \<Longrightarrow>
     condition rule \<noteq> None \<and> action rule \<noteq> None \<and> rule_id rule = ''if_then_'' @ string_of_nat idx"
  unfolding parseIfThenRule_def Let_def
  by (auto dest!: bindE_Inr)

lemma parseFunctionRule_Inr:
  "parseFunctionRule compiles m st idx = Inr rule \<Longrightarrow>
     condition rule \<noteq> None \<and> action rule \<noteq> None \<and> rule_id rule = ''function_'' @ string_of_nat idx"
  unfolding parseFunctionRule_def Let_def
  by (auto dest!: bindE_Inr)

lemma parseNamingRule_Inr:
  "parseNamingRule compiles m st idx = Inr rule \<Longrightarrow>
     condition rule \<noteq> None \<and> action rule \<noteq> None \<and> rule_id rule = ''naming_'' @ string_of_nat idx"
  unfolding parseNamingRule_def Let_def
  by (auto dest!: bindE_Inr)

lemma parseQualityRule_Inr:
  "parseQualityRule m st idx = Inr rule \<Longrightarrow>
     condition rule \<noteq> None \<and> action rule \<noteq> None \<and> rule_id rule = ''quality_'' @ string_of_nat idx"
  unfolding parseQualityRule_def Let_def
  by (auto dest!: bindE_Inr)

lemma tryPatterns_total:
  assumes "\<And>nm p m rule. (nm, p) \<in> set ps \<Longrightarrow> parser p m st idx = Inr rule \<Longrightarrow> condition rule \<noteq> None \<and> action rule \<noteq> None"
      and "\<And>nm p. (nm, p) \<in> set ps \<Longrightarrow> 0 \<le> pconfidence p \<and> pconfidence p \<le> 1"
  shows "\<exists>r. tryPatterns ps st idx = Inr (Some r) \<and> wellBuilt r"
  using assms
proof (induction ps)
  case Nil
  then show ?case using parseGenericRule_Some[of st idx] by (auto simp: wellBuilt_def)
next
  case (Cons a ps)
  obtain nm p where a: "a = (nm, p)" by (cases a)
  have ih: "\<exists>r. tryPatterns ps st idx = Inr (Some r) \<and> wellBuilt r"
    using Cons by (metis list.set_intros(2))
  show ?case
  proof (cases "jsMatch (stext st) (pattern p)")
    case None
    then show ?thesis using ih a by simp
  next
    case (Some m)
    show ?thesis
    proof (cases "parser p m st idx")
      case (Inl e)
      then show ?thesis using ih a Some by simp
    next
      case (Inr rule)
      have "condition rule \<noteq> None \<and> action rule \<noteq> None"
        using Cons.prems(1)[of nm p m rule] a Inr by simp
      moreover have "0 \<le> pconfidence p \<and> pconfidence p \<le> 1"
        using Cons.prems(2)[of nm p] a by simp
      ultimately show ?thesis using a Some Inr by (simp add: wellBuilt_def)
    qed
  qed
qed

lemma parseRuleStatement_total:
  "\<exists>r. parseRuleStatement compiles st idx = Inr (Some r) \<and> wellBuilt r"
  unfolding parseRuleStatement_def
proof (rule tryPatterns_total)
  fix nm p m rule
  assume "(nm, p) \<in> set (rulePatterns compiles)" and "parser p m st idx = Inr rule"
  then show "condition rule \<noteq> None \<and> action rule \<noteq> None"
    by (auto simp: rulePatterns_def dest: parseWhenThenRule_Inr parseIfThenRule_Inr
        parseFunctionRule_Inr parseNamingRule_Inr parseQualityRule_Inr)
next
  fix nm p
  assume "(nm, p) \<in> set (rulePatterns compiles)"
  then show "0 \<le> pconfidence p \<and> pconfidence p \<le> 1"
    by (auto simp: rulePatterns_def)
qed

lemma parseStatements_built:
  "\<exists>rs'. parseStatements compiles sts i rs es = (rs @ rs', es) \<and> length rs' = length sts
     \<and> (\<forall>j < length sts. parseRuleStatement compiles (sts ! j) (i + j + 1) = Inr (Some (rs' ! j)))"
proof (induction sts arbitrary: i rs)
  case Nil
  then show ?case by simp
next
  case (Cons st rest)
  obtain r where r: "parseRuleStatement compiles st (i + 1) = Inr (Some r)"
    using parseRuleStatement_total by blast
  obtain rs'' where rs'': "parseStatements compiles rest (i + 1) (rs @ [r]) es = ((rs @ [r]) @ rs'', es)"
    "length rs'' = length rest"
    "\<forall>j < length rest. parseRuleStatement compiles (rest ! j) ((i + 1) + j + 1) = Inr (Some (rs'' ! j))"
    using Cons.IH[of "i + 1" "rs @ [r]"] by blast
  have "\<forall>j < length (st # rest). parseRuleStatement compiles ((st # rest) ! j) (i + j + 1) = Inr (Some ((r # rs'') ! j))"
  proof (intro allI impI)
    fix j assume "j < length (st # rest)"
    then show "parseRuleStatement compiles ((st # rest) ! j) (i + j + 1) = Inr (Some ((r # rs'') ! j))"
      using r rs''(3) by (cases j) auto
  qed
  then show ?case using r rs''(1,2) by (intro exI[of _ "r # rs''"]) simp
qed


lemma built_facts:
  "length (builtRules compiles doc) = length (extractRuleStatements doc)"
  "snd (parseStatements compiles (extractRuleStatements doc) 0 [] []) = []"
  "j < length (extractRuleStatements doc) \<Longrightarrow>
     parseRuleStatement compiles (extractRuleStatements doc ! j) (j + 1)
       = Inr (Some (builtRules compiles doc ! j))"
  using parseStatements_built[of compiles "extractRuleStatements doc" 0 "[]" "[]"]
  by (auto simp: builtRules_def)

lemma built_wellBuilt: "r \<in> set (builtRules compiles doc) \<Longrightarrow> wellBuilt r"
proof -
  assume "r \<in> set (builtRules compiles doc)"
  then obtain j where j: "j < length (builtRules compiles doc)" "builtRules compiles doc ! j = r"
    by (auto simp: in_set_conv_nth)
  then have "parseRuleStatement compiles (extractRuleStatements doc ! j) (j + 1) = Inr (Some r)"
    using built_facts(1)[of compiles doc] built_facts(3)[of j doc compiles] by auto
  then show "wellBuilt r"
    using parseRuleStatement_total[of compiles "extractRuleStatements doc ! j" "j + 1"] by auto
qed

lemma validateLoop_snd:
  "snd (validateLoop rs ids ws es) = es @ concat (map incompleteError rs)"
  by (induction rs arbitrary: ids ws es) simp_all

lemma incompleteError_wellBuilt: "wellBuilt r \<Longrightarrow> incompleteError r = []"
  by (auto simp: incompleteError_def wellBuilt_def Option.is_none_def)

lemma validateRules_built: "snd (validateRules (builtRules compiles doc)) = []"
  using built_wellBuilt[of _ compiles doc]
  by (simp add: validateRules_def validateLoop_snd incompleteError_wellBuilt)

lemma allErrors_empty: "allErrors compiles doc = []"
  by (simp add: allErrors_def built_facts(2) validateRules_built)

lemma foldl_confidence:
  "foldl (\<lambda>sum rule. sum + confidence (metadata rule)) a rs
     = a + sum_list (map (\<lambda>r. confidence (metadata r)) rs)"
  by (induction rs arbitrary: a) simp_all

lemma calculateConfidence_spec:
  "length rs = n \<Longrightarrow> calculateConfidence rs es n = specOverallConfidence n (length es) rs"
  by (auto simp: calculateConfidence_def specOverallConfidence_def specSuccessRate_def
      specAvgRuleConfidence_def Let_def foldl_confidence)

lemma sum_confidence_bounds:
  "(\<And>r. r \<in> set rs \<Longrightarrow> wellBuilt r) \<Longrightarrow>
     0 \<le> sum_list (map (\<lambda>r. confidence (metadata r)) rs)
     \<and> sum_list (map (\<lambda>r. confidence (metadata r)) rs) \<le> of_nat (length rs)"
proof (induction rs)
  case Nil
  then show ?case by simp
next
  case (Cons a rs)
  have "wellBuilt a" using Cons.prems by simp
  moreover have "0 \<le> sum_list (map (\<lambda>r. confidence (metadata r)) rs)
     \<and> sum_list (map (\<lambda>r. confidence (metadata r)) rs) \<le> of_nat (length rs)"
    using Cons by simp
  ultimately show ?case by (simp add: wellBuilt_def)
qed

lemma specAvg_bounds:
  "(\<And>r. r \<in> set rs \<Longrightarrow> wellBuilt r) \<Longrightarrow>
     0 \<le> specAvgRuleConfidence rs \<and> specAvgRuleConfidence rs \<le> 1"
  using sum_confidence_bounds[of rs]
  by (auto simp: specAvgRuleConfidence_def divide_le_eq)

text \<open>
  Claim C9. Whatever the text and whatever the host accepts, \<open>parseRuleStatement\<close> returns
  a rule for every statement and index, and the rule has a condition and an action: a
  builder that throws is passed over and the fallback builder always returns. So
  \<open>parseQualitySpec\<close> builds as many rules as there are statements, returns no errors,
  reports \<open>successfullyParsed\<close> equal to \<open>totalRules\<close>, and \<open>validateRules\<close> reports no
  incomplete rule.
\<close>

theorem every_statement_yields_one_rule:
  "(\<exists>r. parseRuleStatement compiles statement idx = Inr (Some r)
        \<and> condition r \<noteq> None \<and> action r \<noteq> None)
   \<and> length (builtRules compiles (content spec)) = length (extractRuleStatements (content spec))
   \<and> errors (parseQualitySpec compiles spec) = []
   \<and> successfullyParsed (parseMetadata (parseQualitySpec compiles spec))
       = totalRules (parseMetadata (parseQualitySpec compiles spec))
   \<and> snd (validateRules (builtRules compiles (content spec))) = []"
proof -
  have "\<exists>r. parseRuleStatement compiles statement idx = Inr (Some r)
        \<and> condition r \<noteq> None \<and> action r \<noteq> None"
    using parseRuleStatement_total[of compiles statement idx] by (auto simp: wellBuilt_def)
  moreover have "errors (parseQualitySpec compiles spec) = []"
    by (simp add: parseQualitySpec_def Let_def allErrors_empty)
  moreover have "successfullyParsed (parseMetadata (parseQualitySpec compiles spec))
       = totalRules (parseMetadata (parseQualitySpec compiles spec))"
    by (simp add: parseQualitySpec_def Let_def built_facts(1))
  ultimately show ?thesis
    using built_facts(1)[of compiles "content spec"] validateRules_built[of compiles "content spec"]
    by blast
qed

section \<open>The filter and the counts\<close>

text \<open>
  Claim C2. The rules \<open>parseQualitySpec\<close> returns are the rules built whose confidence is
  above 0.5, so none of them has a confidence of 0.5 or less; \<open>totalRules\<close> is the number
  of statements extracted and \<open>successfullyParsed\<close> the number of rules built, both taken
  before the filter.
\<close>

theorem usable_rules_filtered_counts_unfiltered:
  "(\<forall>r \<in> set (rules (parseQualitySpec compiles spec)). confidence (metadata r) > 1 / 2)
   \<and> rules (parseQualitySpec compiles spec)
       = filter (\<lambda>r. confidence (metadata r) > 1 / 2) (builtRules compiles (content spec))
   \<and> totalRules (parseMetadata (parseQualitySpec compiles spec))
       = length (extractRuleStatements (content spec))
   \<and> successfullyParsed (parseMetadata (parseQualitySpec compiles spec))
       = length (builtRules compiles (content spec))"
  by (simp add: parseQualitySpec_def Let_def)

text \<open>
  A text of two statements, the first of which gets the fallback rule: one rule is
  returned, and both counts are 2.
\<close>

theorem usable_rules_filtered_counts_unfiltered_witness:
  "set (rules (parseQualitySpec regexpSyntaxOk
          \<lparr> content = ''This is not a valid rule format\<newline>WHEN lines > 5 THEN warn about file size'', info = None \<rparr>)) \<noteq> {}
   \<and> list_all (\<lambda>r. confidence (metadata r) > 1 / 2) (rules (parseQualitySpec regexpSyntaxOk
          \<lparr> content = ''This is not a valid rule format\<newline>WHEN lines > 5 THEN warn about file size'', info = None \<rparr>))
   \<and> length (rules (parseQualitySpec regexpSyntaxOk
          \<lparr> content = ''This is not a valid rule format\<newline>WHEN lines > 5 THEN warn about file size'', info = None \<rparr>)) = 1
   \<and> totalRules (parseMetadata (parseQualitySpec regexpSyntaxOk
          \<lparr> content = ''This is not a valid rule format\<newline>WHEN lines > 5 THEN warn about file size'', info = None \<rparr>)) = 2
   \<and> successfullyParsed (parseMetadata (parseQualitySpec regexpSyntaxOk
          \<lparr> content = ''This is not a valid rule format\<newline>WHEN lines > 5 THEN warn about file size'', info = None \<rparr>)) = 2"
proof -
  let ?spec = "\<lparr> content = ''This is not a valid rule format\<newline>WHEN lines > 5 THEN warn about file size'', info = None \<rparr>"
  have n: "map rule_id (rules (parseQualitySpec regexpSyntaxOk ?spec)) = [''when_then_2'']"
    by code_simp
  have t: "totalRules (parseMetadata (parseQualitySpec regexpSyntaxOk ?spec)) = 2"
    by code_simp
  have s: "successfullyParsed (parseMetadata (parseQualitySpec regexpSyntaxOk ?spec)) = 2"
    by code_simp
  have l: "length (rules (parseQualitySpec regexpSyntaxOk ?spec)) = 1"
    using n by (metis length_map length_Cons list.size(3) One_nat_def)
  then have ne: "set (rules (parseQualitySpec regexpSyntaxOk ?spec)) \<noteq> {}"
    by auto
  have "\<forall>r \<in> set (rules (parseQualitySpec regexpSyntaxOk ?spec)). confidence (metadata r) > 1 / 2"
    by (rule usable_rules_filtered_counts_unfiltered[of regexpSyntaxOk ?spec, THEN conjunct1])
  then have "list_all (\<lambda>r. confidence (metadata r) > 1 / 2) (rules (parseQualitySpec regexpSyntaxOk ?spec))"
    by (simp only: list_all_iff)
  then show ?thesis
    using t s l ne by blast
qed

section \<open>The overall confidence\<close>

text \<open>
  Claim C6. The confidence \<open>parseQualitySpec\<close> reports is the mean of the success rate
  (statements minus errors, over statements; 0 without statements) and of the average
  confidence of the rules built (0 without rules); it lies between 0 and 1, and it is 0 for
  the empty text.
\<close>

theorem overall_confidence_formula_and_range:
  "parseConfidence (parseMetadata (parseQualitySpec compiles spec))
     = specOverallConfidence (length (extractRuleStatements (content spec)))
         (length (errors (parseQualitySpec compiles spec))) (builtRules compiles (content spec))
   \<and> 0 \<le> parseConfidence (parseMetadata (parseQualitySpec compiles spec))
   \<and> parseConfidence (parseMetadata (parseQualitySpec compiles spec)) \<le> 1
   \<and> parseConfidence (parseMetadata (parseQualitySpec compiles \<lparr> content = [], info = i \<rparr>)) = 0"
proof -
  let ?n = "length (extractRuleStatements (content spec))"
  let ?rs = "builtRules compiles (content spec)"
  have eq: "parseConfidence (parseMetadata (parseQualitySpec compiles spec))
     = specOverallConfidence ?n (length (errors (parseQualitySpec compiles spec))) ?rs"
    using calculateConfidence_spec[OF built_facts(1), of compiles "content spec"]
    by (simp add: parseQualitySpec_def Let_def)
  have e0: "length (errors (parseQualitySpec compiles spec)) = 0"
    by (simp add: parseQualitySpec_def Let_def allErrors_empty)
  have sr: "0 \<le> specSuccessRate ?n 0 \<and> specSuccessRate ?n 0 \<le> 1"
    by (simp add: specSuccessRate_def)
  have av: "0 \<le> specAvgRuleConfidence ?rs \<and> specAvgRuleConfidence ?rs \<le> 1"
    using specAvg_bounds[of ?rs] built_wellBuilt[of _ compiles "content spec"] by blast
  have rng: "0 \<le> parseConfidence (parseMetadata (parseQualitySpec compiles spec))
     \<and> parseConfidence (parseMetadata (parseQualitySpec compiles spec)) \<le> 1"
    using sr av unfolding eq e0 specOverallConfidence_def by auto
  have "extractRuleStatements [] = []"
    by (simp add: extractRuleStatements_def trim_def)
  then have "parseConfidence (parseMetadata (parseQualitySpec compiles \<lparr> content = [], info = i \<rparr>)) = 0"
    by (simp add: parseQualitySpec_def Let_def calculateConfidence_def)
  then show ?thesis using eq rng by blast
qed





section \<open>Rule identifiers\<close>

lemma idPrefix_simps:
  "idPrefix None = ''generic''"
  "idPrefix (Some ''when_then'') = ''when_then''"
  "idPrefix (Some ''if_then'') = ''if_then''"
  "idPrefix (Some ''function_rule'') = ''function''"
  "idPrefix (Some ''naming_rule'') = ''naming''"
  "idPrefix (Some ''quality_rule'') = ''quality''"
  by (simp_all add: idPrefix_def)

lemma tryPatterns_id:
  assumes "\<And>nm p m rule. (nm, p) \<in> set ps \<Longrightarrow> parser p m st idx = Inr rule
             \<Longrightarrow> rule_id rule = idPrefix (Some nm) @ ''_'' @ string_of_nat idx"
      and "tryPatterns ps st idx = Inr (Some r)"
  shows "rule_id r = idPrefix (winner ps st idx) @ ''_'' @ string_of_nat idx"
  using assms
proof (induction ps)
  case Nil
  then show ?case
    using parseGenericRule_Some[of st idx] by (auto simp: idPrefix_simps(1))
next
  case (Cons a ps)
  obtain nm p where a: "a = (nm, p)" by (cases a)
  have ih: "tryPatterns ps st idx = Inr (Some r)
      \<Longrightarrow> rule_id r = idPrefix (winner ps st idx) @ ''_'' @ string_of_nat idx"
    using Cons.IH Cons.prems(1) by (metis list.set_intros(2))
  show ?case
  proof (cases "jsMatch (stext st) (pattern p)")
    case None
    then show ?thesis using ih a Cons.prems(2) by simp
  next
    case (Some m)
    show ?thesis
    proof (cases "parser p m st idx")
      case (Inl e)
      then show ?thesis using ih a Some Cons.prems(2) by simp
    next
      case (Inr rule)
      have "rule_id rule = idPrefix (Some nm) @ ''_'' @ string_of_nat idx"
        using Cons.prems(1)[of nm p m rule] a Inr by simp
      moreover have "r = rule \<lparr> metadata := (metadata rule) \<lparr> confidence := pconfidence p \<rparr> \<rparr>"
        using a Some Inr Cons.prems(2) by simp
      moreover have "winner (a # ps) st idx = Some nm"
        using a Some Inr by simp
      ultimately show ?thesis by simp
    qed
  qed
qed

lemma parseRuleStatement_id:
  assumes "parseRuleStatement compiles st idx = Inr (Some r)"
  shows "rule_id r = idPrefix (winner (rulePatterns compiles) st idx) @ ''_'' @ string_of_nat idx"
proof (rule tryPatterns_id)
  show "tryPatterns (rulePatterns compiles) st idx = Inr (Some r)"
    using assms by (simp add: parseRuleStatement_def)
next
  fix nm p m rule
  assume mem: "(nm, p) \<in> set (rulePatterns compiles)" and pr: "parser p m st idx = Inr rule"
  from mem consider
      (wt) "nm = ''when_then''" "parser p = parseWhenThenRule compiles"
    | (it) "nm = ''if_then''" "parser p = parseIfThenRule compiles"
    | (fn) "nm = ''function_rule''" "parser p = parseFunctionRule compiles"
    | (nr) "nm = ''naming_rule''" "parser p = parseNamingRule compiles"
    | (qr) "nm = ''quality_rule''" "parser p = parseQualityRule"
    unfolding rulePatterns_def by auto
  then show "rule_id rule = idPrefix (Some nm) @ ''_'' @ string_of_nat idx"
  proof cases
    case wt
    then show ?thesis
      using pr parseWhenThenRule_Inr[of compiles m st idx rule] by (simp add: idPrefix_simps)
  next
    case it
    then show ?thesis
      using pr parseIfThenRule_Inr[of compiles m st idx rule] by (simp add: idPrefix_simps)
  next
    case fn
    then show ?thesis
      using pr parseFunctionRule_Inr[of compiles m st idx rule] by (simp add: idPrefix_simps)
  next
    case nr
    then show ?thesis
      using pr parseNamingRule_Inr[of compiles m st idx rule] by (simp add: idPrefix_simps)
  next
    case qr
    then show ?thesis
      using pr parseQualityRule_Inr[of m st idx rule] by (simp add: idPrefix_simps)
  qed
qed

text \<open>
  Claim C1, as the code has it. The identifier of the rule built for the statement at
  position \<open>j\<close> (from 0) is the prefix of the builder that made it, an underscore, and
  \<open>j + 1\<close>: the ordinal is the position of the statement among all the statements of the
  text, one count for all templates and the fallback.
\<close>

theorem rule_id_statement_ordinal:
  "j < length (extractRuleStatements doc) \<Longrightarrow>
     rule_id (builtRules compiles doc ! j)
       = idPrefix (winner (rulePatterns compiles) (extractRuleStatements doc ! j) (j + 1))
         @ ''_'' @ string_of_nat (j + 1)"
proof -
  assume "j < length (extractRuleStatements doc)"
  then have "parseRuleStatement compiles (extractRuleStatements doc ! j) (j + 1)
               = Inr (Some (builtRules compiles doc ! j))"
    by (rule built_facts(3))
  then show ?thesis
    by (rule parseRuleStatement_id)
qed

text \<open>The second statement of a text whose first statement is a WHEN/THEN one.\<close>

theorem rule_id_statement_ordinal_witness:
  "1 < length (extractRuleStatements ''WHEN a THEN b\<newline>IF c THEN d'')
   \<and> winner (rulePatterns regexpSyntaxOk) (extractRuleStatements ''WHEN a THEN b\<newline>IF c THEN d'' ! 1) 2
       = Some ''if_then''
   \<and> rule_id (builtRules regexpSyntaxOk ''WHEN a THEN b\<newline>IF c THEN d'' ! 1) = ''if_then_2''"
proof -
  have h: "1 < length (extractRuleStatements ''WHEN a THEN b\<newline>IF c THEN d'')"
    by code_simp
  have w: "winner (rulePatterns regexpSyntaxOk)
             (extractRuleStatements ''WHEN a THEN b\<newline>IF c THEN d'' ! 1) 2 = Some ''if_then''"
    by code_simp
  have s: "idPrefix (Some ''if_then'') @ ''_'' @ string_of_nat 2 = ''if_then_2''"
    by code_simp
  have "rule_id (builtRules regexpSyntaxOk ''WHEN a THEN b\<newline>IF c THEN d'' ! 1)
          = idPrefix (winner (rulePatterns regexpSyntaxOk)
              (extractRuleStatements ''WHEN a THEN b\<newline>IF c THEN d'' ! 1) (1 + 1))
            @ ''_'' @ string_of_nat (1 + 1)"
    using h by (rule rule_id_statement_ordinal)
  then have "rule_id (builtRules regexpSyntaxOk ''WHEN a THEN b\<newline>IF c THEN d'' ! 1) = ''if_then_2''"
    by (simp only: one_add_one w s)
  then show ?thesis
    using h w by (intro conjI)
qed

text \<open>
  Claim C1, as stated, fails: the first statement is built by the WHEN/THEN template and
  the second by the IF/THEN template, and the second rule is \<open>if_then_2\<close>, not
  \<open>if_then_1\<close>.
\<close>

theorem rule_id_per_template_counterexample:
  "winner (rulePatterns regexpSyntaxOk) (extractRuleStatements ''WHEN a THEN b\<newline>IF c THEN d'' ! 0) 1
       = Some ''when_then''
   \<and> winner (rulePatterns regexpSyntaxOk) (extractRuleStatements ''WHEN a THEN b\<newline>IF c THEN d'' ! 1) 2
       = Some ''if_then''
   \<and> map rule_id (builtRules regexpSyntaxOk ''WHEN a THEN b\<newline>IF c THEN d'')
       = [''when_then_1'', ''if_then_2'']
   \<and> rule_id (builtRules regexpSyntaxOk ''WHEN a THEN b\<newline>IF c THEN d'' ! 1) \<noteq> ''if_then_1''"
  by code_simp


section \<open>A builder that throws\<close>

text \<open>
  Claim C5, as the code has it. When the builder of a template that matches throws, the
  \<open>catch\<close> inside the loop over the templates takes the exception and the statement goes
  to the remaining templates and at last to the fallback builder; no error is recorded for
  it. \<open>parseQualitySpec\<close> never stops early: it returns a rule for every statement and an
  empty list of errors.
\<close>

theorem throwing_builder_falls_through:
  "jsMatch (stext statement) (pattern p) = Some m \<Longrightarrow> parser p m statement idx = Inl e \<Longrightarrow>
     tryPatterns ((patternName, p) # ps) statement idx = tryPatterns ps statement idx
     \<and> (\<exists>r. parseRuleStatement compiles statement idx = Inr (Some r))
     \<and> errors (parseQualitySpec compiles spec) = []
     \<and> length (builtRules compiles (content spec)) = length (extractRuleStatements (content spec))"
proof -
  assume "jsMatch (stext statement) (pattern p) = Some m" and "parser p m statement idx = Inl e"
  then have "tryPatterns ((patternName, p) # ps) statement idx = tryPatterns ps statement idx"
    by simp
  moreover have "\<exists>r. parseRuleStatement compiles statement idx = Inr (Some r)"
    using parseRuleStatement_total[of compiles statement idx] by blast
  moreover have "errors (parseQualitySpec compiles spec) = []"
    by (simp add: parseQualitySpec_def Let_def allErrors_empty)
  ultimately show ?thesis
    using built_facts(1)[of compiles "content spec"] by blast
qed

text \<open>
  The statement \<open>function ( should x\<close>: the function template matches it with the target
  \<open>(\<close>, and the source \<^verbatim>\<open>function\s+\w*(\w*\<close> its builder hands to the constructor has
  an open parenthesis.
\<close>

theorem throwing_builder_falls_through_witness:
  "jsMatch ''function ( should x'' function_rule_re
     = Some \<lparr> index = 0, groups = [Some ''function ( should x'', Some ''function'', Some ''('',
                                     Some ''should'', Some ''x''] \<rparr>
   \<and> isl (parseFunctionRule regexpSyntaxOk
              \<lparr> index = 0, groups = [Some ''function ( should x'', Some ''function'', Some ''('',
                                      Some ''should'', Some ''x''] \<rparr>
              \<lparr> stext = ''function ( should x'', lineNumber = 1 \<rparr> 1)
   \<and> tryPatterns [(''function_rule'', \<lparr> pattern = function_rule_re, pconfidence = 8 / 10,
                                         parser = parseFunctionRule regexpSyntaxOk \<rparr>)]
         \<lparr> stext = ''function ( should x'', lineNumber = 1 \<rparr> 1
       = tryPatterns [] \<lparr> stext = ''function ( should x'', lineNumber = 1 \<rparr> 1
   \<and> errors (parseQualitySpec regexpSyntaxOk \<lparr> content = ''function ( should x'', info = None \<rparr>) = []"
proof -
  let ?m = "\<lparr> index = 0, groups = [Some ''function ( should x'', Some ''function'', Some ''('',
                                     Some ''should'', Some ''x''] \<rparr>"
  let ?st = "\<lparr> stext = ''function ( should x'', lineNumber = 1 \<rparr>"
  let ?p = "\<lparr> pattern = function_rule_re, pconfidence = 8 / 10,
               parser = parseFunctionRule regexpSyntaxOk \<rparr>"
  have hm: "jsMatch ''function ( should x'' function_rule_re = Some ?m"
    by code_simp
  have hl: "isl (parseFunctionRule regexpSyntaxOk ?m ?st 1)"
    by code_simp
  then obtain e where he: "parseFunctionRule regexpSyntaxOk ?m ?st 1 = Inl e"
    by (cases "parseFunctionRule regexpSyntaxOk ?m ?st 1") simp_all
  have m': "jsMatch (stext ?st) (pattern ?p) = Some ?m"
    using hm by simp
  have e': "parser ?p ?m ?st 1 = Inl e"
    using he by simp
  have "tryPatterns [(''function_rule'', ?p)] ?st 1 = tryPatterns [] ?st 1
        \<and> errors (parseQualitySpec regexpSyntaxOk \<lparr> content = ''function ( should x'', info = None \<rparr>) = []"
    using throwing_builder_falls_through[OF m' e', of "''function_rule''" "[]" regexpSyntaxOk
        "\<lparr> content = ''function ( should x'', info = None \<rparr>"]
    by blast
  then show ?thesis
    using hm hl by blast
qed

text \<open>
  Claim C5, as stated, fails: the builder of the template that matches the statement
  throws, and of the one statement of the text a fallback rule is built and no error is
  recorded.
\<close>

theorem throwing_builder_records_no_error:
  "(case jsMatch ''function ( should x'' function_rule_re of
      None \<Rightarrow> False
    | Some m \<Rightarrow> isl (parseFunctionRule regexpSyntaxOk m
                       \<lparr> stext = ''function ( should x'', lineNumber = 1 \<rparr> 1))
   \<and> extractRuleStatements ''function ( should x''
       = [\<lparr> stext = ''function ( should x'', lineNumber = 1 \<rparr>]
   \<and> errors (parseQualitySpec regexpSyntaxOk \<lparr> content = ''function ( should x'', info = None \<rparr>) = []
   \<and> map rule_id (builtRules regexpSyntaxOk ''function ( should x'') = [''generic_1'']"
  by code_simp

section \<open>The fallback rule\<close>

lemma tryPatterns_no_match:
  "list_all (\<lambda>np. jsMatch (stext st) (pattern (snd np)) = None) ps \<Longrightarrow>
     tryPatterns ps st idx = Inr (parseGenericRule st idx)"
  by (induction ps) auto

lemma rulePatterns_literals:
  "map (\<lambda>np. pattern (snd np)) (rulePatterns compiles) = templateLiterals"
  by (simp add: rulePatterns_def templateLiterals_def)

lemma matchesNoTemplate_generic:
  assumes "matchesNoTemplate st"
  shows "parseRuleStatement compiles st idx = Inr (parseGenericRule st idx)"
proof -
  have "list_all (\<lambda>rx. jsMatch (stext st) rx = None)
          (map (\<lambda>np. pattern (snd np)) (rulePatterns compiles))"
    using assms by (simp only: rulePatterns_literals matchesNoTemplate_def)
  then have "list_all (\<lambda>np. jsMatch (stext st) (pattern (snd np)) = None) (rulePatterns compiles)"
    by (simp add: list_all_iff)
  then show ?thesis
    unfolding parseRuleStatement_def by (rule tryPatterns_no_match)
qed

text \<open>
  Claim C7. A statement that none of the five templates matches gets the rule of the
  fallback builder: its identifier is \<open>generic_\<close> and the ordinal of the statement, its
  condition is a custom predicate that is false of every content and language, so its
  matcher finds nothing and the engine reports nothing for it, its action carries the text
  of the statement, and its confidence is 0.3, so it is not among the rules
  \<open>parseQualitySpec\<close> returns.
\<close>

theorem fallback_rule_never_fires_never_usable:
  assumes "j < length (extractRuleStatements doc)"
      and "matchesNoTemplate (extractRuleStatements doc ! j)"
  shows "rule_id (builtRules compiles doc ! j) = ''generic_'' @ string_of_nat (j + 1)
    \<and> map_option ctype (condition (builtRules compiles doc ! j)) = Some Custom
    \<and> map_option (\<lambda>f. f buf lang) (Option.bind (condition (builtRules compiles doc ! j)) custom)
        = Some False
    \<and> createMatcher compiles lineMatch (condition (builtRules compiles doc ! j)) buf lang = Inr []
    \<and> applyRules (convertToExecutableRules compiles lineMatch [builtRules compiles doc ! j])
         buf lang [] = []
    \<and> map_option amessage (action (builtRules compiles doc ! j))
        = Some (stext (extractRuleStatements doc ! j))
    \<and> confidence (metadata (builtRules compiles doc ! j)) = 3 / 10
    \<and> builtRules compiles doc ! j
        \<notin> set (rules (parseQualitySpec compiles \<lparr> content = doc, info = i \<rparr>))"
proof -
  let ?st = "extractRuleStatements doc ! j"
  let ?r = "builtRules compiles doc ! j"
  have "parseRuleStatement compiles ?st (j + 1) = Inr (Some ?r)"
    using assms(1) by (rule built_facts(3))
  then have r: "parseGenericRule ?st (j + 1) = Some ?r"
    using matchesNoTemplate_generic[OF assms(2), of compiles "j + 1"] by simp
  have eq: "?r = the (parseGenericRule ?st (j + 1))"
    using r by simp
  have c: "condition ?r = Some (customCondition (\<lambda>content language. False))"
    by (subst eq) (simp add: parseGenericRule_def Let_def)
  have a: "map_option amessage (action ?r) = Some (stext ?st)"
    by (subst eq) (simp add: parseGenericRule_def Let_def)
  have conf: "confidence (metadata ?r) = 3 / 10"
    by (subst eq) (simp add: parseGenericRule_def Let_def)
  have rid: "rule_id ?r = ''generic_'' @ string_of_nat (j + 1)"
    by (subst eq) (simp add: parseGenericRule_def Let_def)
  have m: "createMatcher compiles lineMatch (condition ?r) buf lang = Inr []"
    unfolding c by (simp add: createMatcher_def customCondition_def emptyCondition_def)
  have run: "applyRules (convertToExecutableRules compiles lineMatch [?r]) buf lang [] = []"
    by (simp add: convertToExecutableRules_def m)
  have out: "?r \<notin> set (rules (parseQualitySpec compiles \<lparr> content = doc, info = i \<rparr>))"
    using conf by (simp add: parseQualitySpec_def Let_def)
  show ?thesis
    using rid a conf m run out unfolding c
    by (simp add: customCondition_def emptyCondition_def)
qed

text \<open>A statement in plain words, run against a content of one line.\<close>

theorem fallback_rule_never_fires_never_usable_witness:
  "0 < length (extractRuleStatements ''This is not a valid rule format'')
   \<and> matchesNoTemplate (extractRuleStatements ''This is not a valid rule format'' ! 0)
   \<and> rule_id (builtRules regexpSyntaxOk ''This is not a valid rule format'' ! 0)
       = ''generic_'' @ string_of_nat (0 + 1)
   \<and> createMatcher regexpSyntaxOk (\<lambda>rx line. None)
        (condition (builtRules regexpSyntaxOk ''This is not a valid rule format'' ! 0))
        ''var x'' ''typescript'' = Inr []
   \<and> confidence (metadata (builtRules regexpSyntaxOk ''This is not a valid rule format'' ! 0))
       = 3 / 10
   \<and> builtRules regexpSyntaxOk ''This is not a valid rule format'' ! 0
       \<notin> set (rules (parseQualitySpec regexpSyntaxOk
                  \<lparr> content = ''This is not a valid rule format'', info = None \<rparr>))"
proof -
  have h1: "0 < length (extractRuleStatements ''This is not a valid rule format'')"
    by code_simp
  have h2: "matchesNoTemplate (extractRuleStatements ''This is not a valid rule format'' ! 0)"
    by code_simp
  show ?thesis
    using fallback_rule_never_fires_never_usable[OF h1 h2, of regexpSyntaxOk "''var x''"
        "''typescript''" "\<lambda>rx line. None" None] h1 h2
    by blast
qed


section \<open>Running rules\<close>

lemma pushViolations_okPrefix:
  "pushViolations act ms vs = vs @ okPrefix act ms"
  by (induction ms arbitrary: vs) (auto split: sum.splits)

lemma applyRules_contribution:
  "applyRules rs doc lang vs = vs @ concat (map (contribution doc lang) rs)"
  by (induction rs arbitrary: vs)
     (auto simp: contribution_def pushViolations_okPrefix split: sum.splits)

lemma applyStandards_contribution:
  "applyStandards customRules stds doc lang vs
     = vs @ concat (map (contribution doc lang) (concat (map (rulesOf customRules) stds)))"
  by (induction stds arbitrary: vs)
     (auto simp: rulesOf_def applyRules_contribution split: option.splits)

lemma okPrefix_all:
  "\<not> list_ex (\<lambda>m. isl (act m)) ms \<Longrightarrow> map Inr (okPrefix act ms) = map act ms"
  by (induction ms) (auto split: sum.splits)

text \<open>
  Claim C3, as the code has it. The violations of a request are the contributions of its
  rules, in the order the rules are visited (those of the team, then those of each
  standard), each contribution in match order. A rule whose matcher throws contributes
  nothing; a rule that does not throw contributes the violation of every match; a rule
  whose action throws on some match contributes the violations of the matches before it.
  Whatever a rule throws, the rules after it are run.
\<close>

theorem violations_concat_contributions:
  "applySpecDrivenRules customRules request
     = concat (map (contribution (code request) (language request))
                 (rulesInOrder customRules request))
   \<and> applyRules batch doc lang [] = concat (map (contribution doc lang) batch)
   \<and> (findMatches rule doc lang = Inl e \<longrightarrow> contribution doc lang rule = [])
   \<and> (findMatches rule doc lang = Inr ms \<and> \<not> list_ex (\<lambda>m. isl (createViolation rule m)) ms
        \<longrightarrow> map Inr (contribution doc lang rule) = map (createViolation rule) ms)
   \<and> (findMatches rule doc lang = Inr (ms1 @ m # ms2)
        \<and> \<not> list_ex (\<lambda>m. isl (createViolation rule m)) ms1 \<and> isl (createViolation rule m)
        \<longrightarrow> map Inr (contribution doc lang rule) = map (createViolation rule) ms1)"
proof -
  have 1: "applySpecDrivenRules customRules request
     = concat (map (contribution (code request) (language request))
                 (rulesInOrder customRules request))"
    by (simp add: applySpecDrivenRules_def rulesInOrder_def rulesOf_def Let_def
        applyRules_contribution applyStandards_contribution split: option.splits)
  have 2: "applyRules batch doc lang [] = concat (map (contribution doc lang) batch)"
    by (simp add: applyRules_contribution)
  have 3: "findMatches rule doc lang = Inl e \<longrightarrow> contribution doc lang rule = []"
    by (simp add: contribution_def)
  have 4: "findMatches rule doc lang = Inr ms \<and> \<not> list_ex (\<lambda>m. isl (createViolation rule m)) ms
        \<longrightarrow> map Inr (contribution doc lang rule) = map (createViolation rule) ms"
    by (simp add: contribution_def okPrefix_all)
  have pre: "\<And>act. \<not> list_ex (\<lambda>m. isl (act m)) ms1 \<Longrightarrow> isl (act m)
        \<Longrightarrow> map Inr (okPrefix act (ms1 @ m # ms2)) = map act ms1"
  proof -
    fix act :: "RuleMatch \<Rightarrow> exn + RuleViolation"
    assume "\<not> list_ex (\<lambda>m. isl (act m)) ms1" and "isl (act m)"
    then show "map Inr (okPrefix act (ms1 @ m # ms2)) = map act ms1"
      by (induction ms1) (auto split: sum.splits)
  qed
  have 5: "findMatches rule doc lang = Inr (ms1 @ m # ms2)
        \<and> \<not> list_ex (\<lambda>m. isl (createViolation rule m)) ms1 \<and> isl (createViolation rule m)
        \<longrightarrow> map Inr (contribution doc lang rule) = map (createViolation rule) ms1"
    by (simp add: contribution_def pre)
  show ?thesis
    using 1 2 3 4 5 by blast
qed

text \<open>
  A team with three rules: the action of the first throws on its second match, the matcher
  of the second throws, the third never throws.
\<close>

theorem violations_concat_contributions_witness:
  "applySpecDrivenRules [''team'' \<mapsto> [throwsOnSecond, matcherThrows, neverThrows]]
      \<lparr> filePath = ''a.ts'', code = ''x'', language = ''typescript'', userId = ''u'',
         standards = None, reqContext = Some [''teamId'' \<mapsto> ''team''] \<rparr>
     = [violationAt 1, violationAt 7]
   \<and> isl (findMatches matcherThrows ''x'' ''typescript'')
   \<and> contribution ''x'' ''typescript'' matcherThrows = []
   \<and> findMatches neverThrows ''x'' ''typescript'' = Inr [matchAt 7]
   \<and> contribution ''x'' ''typescript'' neverThrows = [violationAt 7]
   \<and> findMatches throwsOnSecond ''x'' ''typescript'' = Inr ([matchAt 1] @ matchAt 2 # [])
   \<and> isl (createViolation throwsOnSecond (matchAt 2))
   \<and> contribution ''x'' ''typescript'' throwsOnSecond = [violationAt 1]"
proof -
  let ?req = "\<lparr> filePath = ''a.ts'', code = ''x'', language = ''typescript'', userId = ''u'',
         standards = None, reqContext = Some [''teamId'' \<mapsto> ''team''] \<rparr>"
  let ?cr = "[''team'' \<mapsto> [throwsOnSecond, matcherThrows, neverThrows]]"
  have order: "rulesInOrder ?cr ?req = [throwsOnSecond, matcherThrows, neverThrows]"
    by (simp add: rulesInOrder_def rulesOf_def teamIdOf_def)
  have m1: "findMatches matcherThrows ''x'' ''typescript'' = Inl (Error ''boom'')"
    by (simp add: matcherThrows_def)
  have m2: "findMatches neverThrows ''x'' ''typescript'' = Inr [matchAt 7]
            \<and> \<not> list_ex (\<lambda>m. isl (createViolation neverThrows m)) [matchAt 7]"
    by (simp add: neverThrows_def)
  have m3: "findMatches throwsOnSecond ''x'' ''typescript'' = Inr ([matchAt 1] @ matchAt 2 # [])
            \<and> \<not> list_ex (\<lambda>m. isl (createViolation throwsOnSecond m)) [matchAt 1]
            \<and> isl (createViolation throwsOnSecond (matchAt 2))"
    by (simp add: throwsOnSecond_def matchAt_def)
  have c1: "contribution ''x'' ''typescript'' matcherThrows = []"
    using violations_concat_contributions[of ?cr ?req "[]" "''x''" "''typescript''" matcherThrows
        "Error ''boom''" "[]" "[]" "matchAt 0" "[]"] m1
    by blast
  have "map Inr (contribution ''x'' ''typescript'' neverThrows)
          = map (createViolation neverThrows) [matchAt 7]"
    using violations_concat_contributions[of ?cr ?req "[]" "''x''" "''typescript''" neverThrows
        "Error ''boom''" "[matchAt 7]" "[]" "matchAt 0" "[]"] m2
    by blast
  then have c2: "contribution ''x'' ''typescript'' neverThrows = [violationAt 7]"
    by (auto simp: neverThrows_def matchAt_def map_eq_Cons_conv)
  have "map Inr (contribution ''x'' ''typescript'' throwsOnSecond)
          = map (createViolation throwsOnSecond) [matchAt 1]"
    using violations_concat_contributions[of ?cr ?req "[]" "''x''" "''typescript''" throwsOnSecond
        "Error ''boom''" "[]" "[matchAt 1]" "matchAt 2" "[]"] m3
    by blast
  then have c3: "contribution ''x'' ''typescript'' throwsOnSecond = [violationAt 1]"
    by (auto simp: throwsOnSecond_def matchAt_def map_eq_Cons_conv)
  have "applySpecDrivenRules ?cr ?req
          = concat (map (contribution (code ?req) (language ?req)) (rulesInOrder ?cr ?req))"
    using violations_concat_contributions[of ?cr ?req "[]" "''x''" "''typescript''" neverThrows
        "Error ''boom''" "[]" "[]" "matchAt 0" "[]"]
    by blast
  then have run: "applySpecDrivenRules ?cr ?req = [violationAt 1, violationAt 7]"
    by (simp add: order c1 c2 c3)
  show ?thesis
    using run m1 m2 m3 c1 c2 c3 by simp
qed

text \<open>
  Claim C3, as stated, fails: the action of the first rule of the batch throws on its
  second match, and the violation of its first match is returned all the same, in front of
  the violation of the second rule; under the claim the first rule would add nothing.
\<close>

theorem throwing_action_keeps_earlier_violations:
  "throwsOn ''x'' ''typescript'' throwsOnSecond
   \<and> applyRules [throwsOnSecond, neverThrows] ''x'' ''typescript'' []
       = [violationAt 1, violationAt 7]
   \<and> concat (map (allOrNothing ''x'' ''typescript'') [throwsOnSecond, neverThrows])
       = [violationAt 7]
   \<and> applyRules [throwsOnSecond, neverThrows] ''x'' ''typescript'' []
       \<noteq> concat (map (allOrNothing ''x'' ''typescript'') [throwsOnSecond, neverThrows])"
  by (simp add: throwsOn_def allOrNothing_def contribution_def throwsOnSecond_def
      neverThrows_def matchAt_def violationAt_def)


section \<open>Metric rules\<close>

lemma run_single_metric_rule:
  assumes "condition r = Some c" and "ctype c = Metric" and "metric c = Some ms"
      and "action r = Some a"
  shows "applyRules (convertToExecutableRules compiles lineMatch [r]) doc lang []
    = (if compareMetric (int (calculateMetric doc (name ms))) (operator ms) (mvalue ms)
       then [\<lparr> vseverity = severity r,
                vmessage = (if amessage a = [] then message r else amessage a),
                vline = 1, vcolumn = 1, vrule = ''spec-driven-rule'',
                vsuggestion = asuggestion a \<rparr>]
       else [])"
  using assms
  by (simp add: convertToExecutableRules_def createMatcher_def createAction_def)

lemma calculateMetric_lines: "calculateMetric doc ''lines'' = length (split doc CHR 0x0A)"
proof -
  have "toLowerCase ''lines'' = ''lines''" by code_simp
  then show ?thesis by (simp add: calculateMetric_def)
qed

lemma calculateMetric_function_lines: "calculateMetric doc ''function lines'' = 0"
proof -
  have "toLowerCase ''function lines'' = ''function lines''" by code_simp
  then show ?thesis by (simp add: calculateMetric_def)
qed

lemma single_rule_projections:
  assumes "map (\<lambda>r. (map_option ctype (condition r), Option.bind (condition r) metric, action r,
                      severity r, message r)) rs = [(Some Metric, Some ms, Some a, sev, msg)]"
  shows "\<exists>r c. rs = [r] \<and> condition r = Some c \<and> ctype c = Metric \<and> metric c = Some ms
           \<and> action r = Some a \<and> severity r = sev \<and> message r = msg"
proof -
  obtain r where r: "rs = [r]" "map_option ctype (condition r) = Some Metric"
      "Option.bind (condition r) metric = Some ms" "action r = Some a" "severity r = sev"
      "message r = msg"
    using assms by (auto simp: map_eq_Cons_conv)
  then obtain c where "condition r = Some c" "ctype c = Metric" "metric c = Some ms"
    by (cases "condition r") auto
  then show ?thesis using r by blast
qed

text \<open>
  Claim C8. The statement \<open>WHEN lines > 5 THEN warn about file size\<close> compiles to one
  usable rule, \<open>when_then_1\<close>, whose condition is the metric \<open>lines > 5\<close>. Run against
  any content, the rule reports one violation, at line 1, when the content has more than
  five lines, and none otherwise: one for the content of seven lines and none for the
  content of three.
\<close>

theorem lines_metric_rule_scenario:
  "map rule_id (rules (parseQualitySpec compiles
       \<lparr> content = ''WHEN lines > 5 THEN warn about file size'', info = i \<rparr>)) = [''when_then_1'']
   \<and> map (\<lambda>r. (map_option ctype (condition r), Option.bind (condition r) metric))
        (rules (parseQualitySpec compiles
           \<lparr> content = ''WHEN lines > 5 THEN warn about file size'', info = i \<rparr>))
       = [(Some Metric, Some \<lparr> name = ''lines'', operator = ''>'', mvalue = 5 \<rparr>)]
   \<and> applyRules (convertToExecutableRules compiles lineMatch
         (rules (parseQualitySpec compiles
            \<lparr> content = ''WHEN lines > 5 THEN warn about file size'', info = i \<rparr>))) doc lang []
       = (if 5 < length (split doc CHR 0x0A)
          then [\<lparr> vseverity = ''warning'', vmessage = ''warn about file size'', vline = 1,
                   vcolumn = 1, vrule = ''spec-driven-rule'',
                   vsuggestion = Some ''Consider addressing: warn about file size'' \<rparr>]
          else [])
   \<and> length (split sevenLines CHR 0x0A) = 7
   \<and> length (applyRules (convertToExecutableRules compiles lineMatch
         (rules (parseQualitySpec compiles
            \<lparr> content = ''WHEN lines > 5 THEN warn about file size'', info = i \<rparr>)))
         sevenLines lang []) = 1
   \<and> map vline (applyRules (convertToExecutableRules compiles lineMatch
         (rules (parseQualitySpec compiles
            \<lparr> content = ''WHEN lines > 5 THEN warn about file size'', info = i \<rparr>)))
         sevenLines lang []) = [1]
   \<and> length (split threeLines CHR 0x0A) = 3
   \<and> applyRules (convertToExecutableRules compiles lineMatch
         (rules (parseQualitySpec compiles
            \<lparr> content = ''WHEN lines > 5 THEN warn about file size'', info = i \<rparr>)))
         threeLines lang [] = []"
proof -
  let ?R = "rules (parseQualitySpec compiles
       \<lparr> content = ''WHEN lines > 5 THEN warn about file size'', info = i \<rparr>)"
  let ?v = "\<lparr> vseverity = ''warning'', vmessage = ''warn about file size'', vline = 1,
              vcolumn = 1, vrule = ''spec-driven-rule'',
              vsuggestion = Some ''Consider addressing: warn about file size'' \<rparr>"
  have ids: "map rule_id ?R = [''when_then_1'']"
    by code_simp
  have proj: "map (\<lambda>r. (map_option ctype (condition r), Option.bind (condition r) metric, action r,
                      severity r, message r)) ?R
      = [(Some Metric, Some \<lparr> name = ''lines'', operator = ''>'', mvalue = 5 \<rparr>,
          Some \<lparr> atype = Warning, amessage = ''warn about file size'',
                 asuggestion = Some ''Consider addressing: warn about file size'',
                 autoFix = None \<rparr>,
          ''warning'', ''lines > 5 - warn about file size'')]"
    by code_simp
  then have cond: "map (\<lambda>r. (map_option ctype (condition r), Option.bind (condition r) metric)) ?R
       = [(Some Metric, Some \<lparr> name = ''lines'', operator = ''>'', mvalue = 5 \<rparr>)]"
    by (auto simp: map_eq_Cons_conv)
  obtain r c where r: "?R = [r]" "condition r = Some c" "ctype c = Metric"
      "metric c = Some \<lparr> name = ''lines'', operator = ''>'', mvalue = 5 \<rparr>"
      "action r = Some \<lparr> atype = Warning, amessage = ''warn about file size'',
                 asuggestion = Some ''Consider addressing: warn about file size'',
                 autoFix = None \<rparr>"
      "severity r = ''warning''" "message r = ''lines > 5 - warn about file size''"
    using single_rule_projections[OF proj] by blast
  have run: "applyRules (convertToExecutableRules compiles lineMatch ?R) d lang []
       = (if 5 < length (split d CHR 0x0A) then [?v] else [])" for d
    unfolding r(1) run_single_metric_rule[OF r(2) r(3) r(4) r(5)]
    by (simp add: r(6) calculateMetric_lines compareMetric_def)
  have seven: "length (split sevenLines CHR 0x0A) = 7"
    by code_simp
  have three: "length (split threeLines CHR 0x0A) = 3"
    by code_simp
  have r7: "applyRules (convertToExecutableRules compiles lineMatch ?R) sevenLines lang [] = [?v]"
    unfolding run by (simp add: seven)
  have r3: "applyRules (convertToExecutableRules compiles lineMatch ?R) threeLines lang [] = []"
    unfolding run by (simp add: three)
  show ?thesis
    using ids cond run[of doc] seven three r3 by (simp add: r7)
qed


lemma functionLengthPhrase_parse:
  assumes "functionLengthPhrase t"
  shows "\<exists>k. 0 \<le> k \<and> parseCondition compiles t = Inr (metricCondition ''function lines'' ''>'' k)"
proof -
  let ?p = "trim (toLowerCase t)"
  have a: "jsMatch ?p metric_re = None" "\<not> str_includes ?p ''console.log''"
      "\<not> str_includes ?p ''var declaration''" "\<not> str_includes ?p ''uses var''"
      "str_includes ?p ''function''" "str_includes ?p ''more than''"
      "jsMatch ?p more_than_re \<noteq> None"
    using assms by (simp_all add: functionLengthPhrase_def Let_def)
  from a(7) obtain nm where nm: "jsMatch ?p more_than_re = Some nm"
    by auto
  have "parseCondition compiles t
          = Inr (metricCondition ''function lines'' ''>'' (parseInt (groupText nm 1)))"
    using a(1-6) nm by (simp add: parseCondition_def Let_def)
  moreover have "0 \<le> parseInt (groupText nm 1)"
    by (simp add: parseInt_def)
  ultimately show ?thesis by blast
qed

lemma function_lines_matcher:
  "0 \<le> n \<Longrightarrow>
     createMatcher compiles lineMatch (Some (metricCondition ''function lines'' ''>'' n)) doc lang
       = Inr []"
  by (simp add: createMatcher_def metricCondition_def emptyCondition_def
      calculateMetric_function_lines compareMetric_def)

text \<open>
  Claim C10, as the code has it. A condition phrase that reaches the fourth heuristic of
  \<open>parseCondition\<close> (lower-cased and trimmed, it has no numeric comparison, no
  \<open>console.log\<close>, no \<open>var declaration\<close> and no \<open>uses var\<close>, and it has \<open>function\<close>
  and \<open>more than\<close> followed by a number) becomes the metric condition
  \<open>function lines > N\<close> with \<open>N\<close> not negative. \<open>calculateMetric\<close> does not know the
  name \<open>function lines\<close> and gives 0, so for every threshold that is not negative, every
  content and every language the matcher finds nothing; the rule compiled from
  \<open>WHEN function has more than 20 lines THEN warn about complexity\<close> reports no violation
  on any content.
\<close>

theorem function_lines_rule_never_matches:
  assumes "functionLengthPhrase conditionText" and "0 \<le> n"
  shows "(\<exists>k. 0 \<le> k \<and> parseCondition compiles conditionText
                          = Inr (metricCondition ''function lines'' ''>'' k))
    \<and> (case parseCondition compiles conditionText of
          Inl e \<Rightarrow> False
        | Inr c \<Rightarrow> createMatcher compiles lineMatch (Some c) doc lang = Inr [])
    \<and> calculateMetric doc ''function lines'' = 0
    \<and> createMatcher compiles lineMatch (Some (metricCondition ''function lines'' ''>'' n)) doc lang
        = Inr []
    \<and> applyRules (convertToExecutableRules compiles lineMatch
          (rules (parseQualitySpec compiles
             \<lparr> content = ''WHEN function has more than 20 lines THEN warn about complexity'',
                info = i \<rparr>))) doc lang [] = []"
proof -
  let ?R = "rules (parseQualitySpec compiles
             \<lparr> content = ''WHEN function has more than 20 lines THEN warn about complexity'',
                info = i \<rparr>)"
  obtain k where k: "0 \<le> k"
      "parseCondition compiles conditionText = Inr (metricCondition ''function lines'' ''>'' k)"
    using functionLengthPhrase_parse[OF assms(1)] by blast
  have 2: "(case parseCondition compiles conditionText of
          Inl e \<Rightarrow> False
        | Inr c \<Rightarrow> createMatcher compiles lineMatch (Some c) doc lang = Inr [])"
    using k by (simp add: function_lines_matcher)
  have proj: "map (\<lambda>r. (map_option ctype (condition r), Option.bind (condition r) metric, action r,
                      severity r, message r)) ?R
      = [(Some Metric, Some \<lparr> name = ''function lines'', operator = ''>'', mvalue = 20 \<rparr>,
          Some \<lparr> atype = Warning, amessage = ''warn about complexity'',
                 asuggestion = Some ''Consider addressing: warn about complexity'',
                 autoFix = None \<rparr>,
          ''warning'', ''function has more than 20 lines - warn about complexity'')]"
    by code_simp
  obtain r c where r: "?R = [r]" "condition r = Some c" "ctype c = Metric"
      "metric c = Some \<lparr> name = ''function lines'', operator = ''>'', mvalue = 20 \<rparr>"
      "action r = Some \<lparr> atype = Warning, amessage = ''warn about complexity'',
                 asuggestion = Some ''Consider addressing: warn about complexity'',
                 autoFix = None \<rparr>"
    using single_rule_projections[OF proj] by blast
  have 5: "applyRules (convertToExecutableRules compiles lineMatch ?R) doc lang [] = []"
    unfolding r(1) run_single_metric_rule[OF r(2) r(3) r(4) r(5)]
    by (simp add: calculateMetric_function_lines compareMetric_def)
  show ?thesis
    using k 2 5 function_lines_matcher[OF assms(2)] calculateMetric_function_lines by blast
qed

text \<open>The phrase of the example, the threshold 20 and the content of seven lines.\<close>

theorem function_lines_rule_never_matches_witness:
  "functionLengthPhrase ''function has more than 20 lines''
   \<and> (0::int) \<le> 20
   \<and> map_sum id (\<lambda>c. (ctype c, metric c))
         (parseCondition regexpSyntaxOk ''function has more than 20 lines'')
       = Inr (Metric, Some \<lparr> name = ''function lines'', operator = ''>'', mvalue = 20 \<rparr>)
   \<and> calculateMetric sevenLines ''function lines'' = 0
   \<and> createMatcher regexpSyntaxOk (\<lambda>rx line. None)
        (Some (metricCondition ''function lines'' ''>'' 20)) sevenLines ''typescript'' = Inr []
   \<and> applyRules (convertToExecutableRules regexpSyntaxOk (\<lambda>rx line. None)
          (rules (parseQualitySpec regexpSyntaxOk
             \<lparr> content = ''WHEN function has more than 20 lines THEN warn about complexity'',
                info = None \<rparr>))) sevenLines ''typescript'' [] = []"
proof -
  have h1: "functionLengthPhrase ''function has more than 20 lines''"
    by code_simp
  have h2: "(0::int) \<le> 20"
    by simp
  have p: "map_sum id (\<lambda>c. (ctype c, metric c))
         (parseCondition regexpSyntaxOk ''function has more than 20 lines'')
       = Inr (Metric, Some \<lparr> name = ''function lines'', operator = ''>'', mvalue = 20 \<rparr>)"
    by code_simp
  show ?thesis
    using function_lines_rule_never_matches[OF h1 h2, of regexpSyntaxOk "\<lambda>rx line. None"
        sevenLines "''typescript''" None] h1 h2 p
    by blast
qed

section \<open>Severities\<close>

text \<open>
  Claim C4 fails on the code. \<open>mapSeverity\<close> looks the text of a SHALL clause up in the one
  table that holds the severity words and the action words, and returns what it finds:
  for \<open>SHALL flag\<close> the severity of the rule, and of the violation made from it, is
  \<open>violation\<close>, which is none of \<open>info\<close>, \<open>warning\<close>, \<open>error\<close>, \<open>critical\<close>.
\<close>

theorem shall_clause_severity_outside_range:
  "map_option (\<lambda>m. grp m 3)
       (jsMatch ''WHEN lines > 5 THEN report it SHALL flag'' when_then_re) = Some (Some ''flag'')
   \<and> mapSeverity ''flag'' = ''violation''
   \<and> map severity (rules (parseQualitySpec compiles
         \<lparr> content = ''WHEN lines > 5 THEN report it SHALL flag'', info = i \<rparr>)) = [''violation'']
   \<and> map vseverity (applyRules (convertToExecutableRules compiles lineMatch
         (rules (parseQualitySpec compiles
            \<lparr> content = ''WHEN lines > 5 THEN report it SHALL flag'', info = i \<rparr>)))
         sevenLines lang []) = [''violation'']
   \<and> ''violation'' \<notin> set [''info'', ''warning'', ''error'', ''critical'']"
proof -
  have 1: "map_option (\<lambda>m. grp m 3)
       (jsMatch ''WHEN lines > 5 THEN report it SHALL flag'' when_then_re) = Some (Some ''flag'')"
    by code_simp
  have 2: "mapSeverity ''flag'' = ''violation''"
    by code_simp
  have 3: "map severity (rules (parseQualitySpec compiles
         \<lparr> content = ''WHEN lines > 5 THEN report it SHALL flag'', info = i \<rparr>)) = [''violation'']"
    by code_simp
  have 4: "map vseverity (applyRules (convertToExecutableRules compiles lineMatch
         (rules (parseQualitySpec compiles
            \<lparr> content = ''WHEN lines > 5 THEN report it SHALL flag'', info = i \<rparr>)))
         sevenLines lang []) = [''violation'']"
    by code_simp
  have 5: "''violation'' \<notin> set [''info'', ''warning'', ''error'', ''critical'']"
    by simp
  show ?thesis
    using 1 2 3 4 5 by blast
qed


text \<open>
  Claim C10, as stated, fails: the heuristics are tried in order, and a phrase that has
  \<open>function\<close> and \<open>more than N\<close> goes to an earlier one when that one applies. The
  phrase \<open>functions > 3 and function has more than 5 lines\<close> has a numeric comparison:
  its condition is the metric \<open>functions > 3\<close>, and the rule compiled from it reports a
  violation on the content with four function declarations. The phrase
  \<open>function contains console.log more than 3 times\<close> becomes a pattern condition.
\<close>

theorem function_more_than_phrase_other_heuristic:
  "combinesFunctionMoreThan ''functions > 3 and function has more than 5 lines''
   \<and> map_sum id (\<lambda>c. (ctype c, metric c))
         (parseCondition regexpSyntaxOk ''functions > 3 and function has more than 5 lines'')
       = Inr (Metric, Some \<lparr> name = ''functions'', operator = ''>'', mvalue = 3 \<rparr>)
   \<and> calculateMetric fourFunctions ''functions'' = 4
   \<and> map vline (applyRules (convertToExecutableRules regexpSyntaxOk (\<lambda>rx line. None)
          (rules (parseQualitySpec regexpSyntaxOk
             \<lparr> content = ''WHEN functions > 3 and function has more than 5 lines THEN warn'',
                info = None \<rparr>))) fourFunctions ''typescript'' []) = [1]
   \<and> combinesFunctionMoreThan ''function contains console.log more than 3 times''
   \<and> map_sum id (\<lambda>c. (ctype c, metric c, cpattern c))
         (parseCondition regexpSyntaxOk ''function contains console.log more than 3 times'')
       = Inr (Pattern, None,
              Some (PatternRegExp \<lparr> source = ''console'' @ [backslash] @ ''.log'',
                                      flags = ''gi'' \<rparr>))"
  by code_simp

end
